theory Spec2Isabelle
  imports Main "HOL-Library.Word" "HOL-Library.AList"
begin

unbundle bit_operations_syntax

section \<open>Setup keys of the management server (management/server/setupkey.go)\<close>

text \<open>
  A shallow embedding of \<^verbatim>\<open>setupkey.go\<close>. A Go \<^verbatim>\<open>string\<close> is a sequence of bytes and is
  modelled by \<^typ>\<open>string\<close> (a list of 8-bit characters); \<^verbatim>\<open>len\<close> is \<^const>\<open>length\<close> and
  \<^verbatim>\<open>s[0:5]\<close> is \<^term>\<open>take 5 s\<close> once the bounds check has passed. Go's \<^verbatim>\<open>int\<close> is the 64-bit
  machine integer of the platforms the server runs on: the counters of a key are
  \<^typ>\<open>64 word\<close>, compared as signed numbers. A run-time panic is a value of the error
  type, so that every panicking path of the source is a branch of the model.
\<close>

subsection \<open>Errors\<close>

text \<open>
  The status package is not part of the file. Its error kinds are taken from the constants
  the file uses (\<^verbatim>\<open>status.NotFound\<close>, \<^verbatim>\<open>status.InvalidArgument\<close>, \<^verbatim>\<open>status.Internal\<close>) and
  from the taxonomy of the specification (section 7), which adds \<^verbatim>\<open>Unauthorized\<close>.
  \<^verbatim>\<open>Errorf\<close> is \<^verbatim>\<open>fmt.Errorf\<close> with a wrapped cause; \<^verbatim>\<open>Panic\<close> is a run-time panic.
\<close>

datatype status_type = NotFound | InvalidArgument | Internal | Unauthorized

datatype error =
    Status status_type string
  | Errorf string error
  | Panic string

subsection \<open>Bytes and strings\<close>

type_synonym byte = "8 word"

definition byte_of :: "char \<Rightarrow> byte" where
  "byte_of c = of_char c"

text \<open>The conversion \<^verbatim>\<open>[]byte(s)\<close>.\<close>

definition bytes_of :: "string \<Rightarrow> byte list" where
  "bytes_of s = map byte_of s"

text \<open>
  \<^verbatim>\<open>strings.ToUpper\<close> on ASCII letters. The only caller passes the text of a UUID, which is
  ASCII; bytes outside \<^verbatim>\<open>a..z\<close> are left as they are.
\<close>

definition upper_char :: "char \<Rightarrow> char" where
  "upper_char c =
     (if 0x61 \<le> (of_char c :: nat) \<and> (of_char c :: nat) \<le> 0x7A
      then char_of ((of_char c :: nat) - 0x20) else c)"

definition ToUpper :: "string \<Rightarrow> string" where
  "ToUpper s = map upper_char s"

text \<open>
  \<^verbatim>\<open>utf8.RuneCountInString\<close>, following the decoder of the Go library: an ASCII byte is one
  rune; a lead byte \<^verbatim>\<open>C2..F4\<close> followed by the continuation bytes its class accepts is one
  rune of 2, 3 or 4 bytes; every other byte (an invalid lead, a truncated or ill-formed
  sequence) counts as one rune of width 1.
\<close>

definition rune_size :: "byte \<Rightarrow> nat" where
  "rune_size c =
     (if c < 0x80 then 1
      else if c < 0xC2 then 0
      else if c < 0xE0 then 2
      else if c < 0xF0 then 3
      else if c < 0xF5 then 4
      else 0)"

definition accept_lo :: "byte \<Rightarrow> byte" where
  "accept_lo c = (if c = 0xE0 then 0xA0 else if c = 0xF0 then 0x90 else 0x80)"

definition accept_hi :: "byte \<Rightarrow> byte" where
  "accept_hi c = (if c = 0xED then 0x9F else if c = 0xF4 then 0x8F else 0xBF)"

definition is_cont :: "byte \<Rightarrow> bool" where
  "is_cont c \<longleftrightarrow> 0x80 \<le> c \<and> c \<le> 0xBF"

definition rune_width :: "byte \<Rightarrow> byte list \<Rightarrow> nat" where
  "rune_width c rest =
     (let size = rune_size c in
      if size \<le> 1 then 1
      else if length rest + 1 < size then 1
      else if rest ! 0 < accept_lo c \<or> accept_hi c < rest ! 0 then 1
      else if size = 2 then 2
      else if \<not> is_cont (rest ! 1) then 1
      else if size = 3 then 3
      else if \<not> is_cont (rest ! 2) then 1
      else 4)"

fun rune_count :: "byte list \<Rightarrow> nat" where
  "rune_count [] = 0"
| "rune_count (c # rest) = Suc (rune_count (drop (rune_width c rest - 1) rest))"

definition RuneCountInString :: "string \<Rightarrow> int" where
  "RuneCountInString s = int (rune_count (bytes_of s))"

text \<open>\<^verbatim>\<open>strings.Repeat\<close> panics on a negative count.\<close>

definition Repeat :: "string \<Rightarrow> int \<Rightarrow> error + string" where
  "Repeat s n =
     (if n < 0 then Inl (Panic ''strings: negative Repeat count'')
      else Inr (concat (replicate (nat n) s)))"

text \<open>\<^verbatim>\<open>strconv.Itoa\<close>: the decimal text of an integer.\<close>

definition digit_char :: "nat \<Rightarrow> char" where
  "digit_char d = char_of (0x30 + d)"

fun nat_digits :: "nat \<Rightarrow> string" where
  "nat_digits n =
     (if n < 10 then [digit_char n] else nat_digits (n div 10) @ [digit_char (n mod 10)])"

definition Itoa :: "int \<Rightarrow> string" where
  "Itoa i = (if i < 0 then CHR ''-'' # nat_digits (nat (- i)) else nat_digits (nat i))"

subsection \<open>The libraries the generator calls\<close>

text \<open>
  \<^verbatim>\<open>crypto/sha256\<close>, \<^verbatim>\<open>encoding/base64\<close>, \<^verbatim>\<open>hash/fnv\<close> and \<^verbatim>\<open>github.com/google/uuid\<close> are
  libraries, not code of the repository. They are modelled by the algorithms they
  implement (FIPS 180-4, RFC 4648, FNV-1a, RFC 4122), so that the generator computes.
\<close>

paragraph \<open>SHA-256\<close>

text \<open>
  The round constants \<open>K256\<close> are the first 32 bits of the fractional parts of the cube
  roots of the first 64 primes, the initial state those of the square roots of the first
  8 primes; both are written in decimal.
\<close>

type_synonym w32 = "32 word"

definition Ch :: "w32 \<Rightarrow> w32 \<Rightarrow> w32 \<Rightarrow> w32" where
  "Ch x y z = (x AND y) XOR (NOT x AND z)"

definition Maj :: "w32 \<Rightarrow> w32 \<Rightarrow> w32 \<Rightarrow> w32" where
  "Maj x y z = (x AND y) XOR (x AND z) XOR (y AND z)"

definition bsig0 :: "w32 \<Rightarrow> w32" where
  "bsig0 x = word_rotr 2 x XOR word_rotr 13 x XOR word_rotr 22 x"

definition bsig1 :: "w32 \<Rightarrow> w32" where
  "bsig1 x = word_rotr 6 x XOR word_rotr 11 x XOR word_rotr 25 x"

definition ssig0 :: "w32 \<Rightarrow> w32" where
  "ssig0 x = word_rotr 7 x XOR word_rotr 18 x XOR drop_bit 3 x"

definition ssig1 :: "w32 \<Rightarrow> w32" where
  "ssig1 x = word_rotr 17 x XOR word_rotr 19 x XOR drop_bit 10 x"

definition K256 :: "w32 list" where
  "K256 =
    [1116352408, 1899447441, 3049323471, 3921009573, 961987163, 1508970993,
     2453635748, 2870763221, 3624381080, 310598401, 607225278, 1426881987,
     1925078388, 2162078206, 2614888103, 3248222580, 3835390401, 4022224774,
     264347078, 604807628, 770255983, 1249150122, 1555081692, 1996064986,
     2554220882, 2821834349, 2952996808, 3210313671, 3336571891, 3584528711,
     113926993, 338241895, 666307205, 773529912, 1294757372, 1396182291,
     1695183700, 1986661051, 2177026350, 2456956037, 2730485921, 2820302411,
     3259730800, 3345764771, 3516065817, 3600352804, 4094571909, 275423344,
     430227734, 506948616, 659060556, 883997877, 958139571, 1322822218,
     1537002063, 1747873779, 1955562222, 2024104815, 2227730452, 2361852424,
     2428436474, 2756734187, 3204031479, 3329325298]"

type_synonym sha_state = "w32 \<times> w32 \<times> w32 \<times> w32 \<times> w32 \<times> w32 \<times> w32 \<times> w32"

definition sha_init :: sha_state where
  "sha_init =
    (1779033703, 3144134277, 1013904242, 2773480762,
     1359893119, 2600822924, 528734635, 1541459225)"

definition be32 :: "byte \<Rightarrow> byte \<Rightarrow> byte \<Rightarrow> byte \<Rightarrow> w32" where
  "be32 a b c d = push_bit 24 (ucast a) OR push_bit 16 (ucast b) OR push_bit 8 (ucast c) OR ucast d"

fun block_words :: "byte list \<Rightarrow> w32 list" where
  "block_words (a # b # c # d # rest) = be32 a b c d # block_words rest"
| "block_words _ = []"

fun sha_extend :: "nat \<Rightarrow> w32 list \<Rightarrow> w32 list" where
  "sha_extend 0 w = w"
| "sha_extend (Suc n) w =
     sha_extend n
       (w @ [ssig1 (w ! (length w - 2)) + w ! (length w - 7)
              + ssig0 (w ! (length w - 15)) + w ! (length w - 16)])"

definition sha_round :: "sha_state \<Rightarrow> w32 \<times> w32 \<Rightarrow> sha_state" where
  "sha_round s kw =
     (case s of (a, b, c, d, e, f, g, h) \<Rightarrow>
        let t1 = h + bsig1 e + Ch e f g + fst kw + snd kw;
            t2 = bsig0 a + Maj a b c
        in (t1 + t2, a, b, c, d + t1, e, f, g))"

definition sha_add :: "sha_state \<Rightarrow> sha_state \<Rightarrow> sha_state" where
  "sha_add s t =
     (case s of (a, b, c, d, e, f, g, h) \<Rightarrow>
      case t of (a', b', c', d', e', f', g', h') \<Rightarrow>
        (a + a', b + b', c + c', d + d', e + e', f + f', g + g', h + h'))"

definition sha_compress :: "sha_state \<Rightarrow> byte list \<Rightarrow> sha_state" where
  "sha_compress s block =
     sha_add s (foldl sha_round s (zip K256 (sha_extend 48 (block_words block))))"

text \<open>
  Padding: the byte \<^verbatim>\<open>80\<close>, zero bytes up to 56 modulo 64, and the length of the message
  in bits as a 64-bit big-endian number.
\<close>

definition be_bytes :: "nat \<Rightarrow> 'a::len word \<Rightarrow> byte list" where
  "be_bytes n w = map (\<lambda>i. ucast (drop_bit (8 * (n - 1 - i)) w)) [0..<n]"

definition sha_pad :: "byte list \<Rightarrow> byte list" where
  "sha_pad msg =
     msg @ [0x80] @ replicate ((55 + 64 - length msg mod 64) mod 64) 0
       @ be_bytes 8 (of_nat (8 * length msg) :: 64 word)"

fun sha_blocks :: "nat \<Rightarrow> sha_state \<Rightarrow> byte list \<Rightarrow> sha_state" where
  "sha_blocks 0 s bs = s"
| "sha_blocks (Suc n) s bs = sha_blocks n (sha_compress s (take 64 bs)) (drop 64 bs)"

definition state_bytes :: "sha_state \<Rightarrow> byte list" where
  "state_bytes s =
     (case s of (a, b, c, d, e, f, g, h) \<Rightarrow>
        be_bytes 4 a @ be_bytes 4 b @ be_bytes 4 c @ be_bytes 4 d
          @ be_bytes 4 e @ be_bytes 4 f @ be_bytes 4 g @ be_bytes 4 h)"

text \<open>\<^verbatim>\<open>sha256.Sum256\<close>: the digest of a message, 32 bytes.\<close>

definition Sum256 :: "byte list \<Rightarrow> byte list" where
  "Sum256 msg =
     (let p = sha_pad msg in state_bytes (sha_blocks (length p div 64) sha_init p))"

paragraph \<open>Base64, the standard alphabet with padding\<close>

definition encodeStd :: string where
  "encodeStd = ''ABCDEFGHIJKLMNOPQRSTUVWXYZabcdefghijklmnopqrstuvwxyz0123456789+/''"

definition b64_char :: "nat \<Rightarrow> char" where
  "b64_char v = encodeStd ! (v mod 64)"

fun EncodeToString :: "byte list \<Rightarrow> string" where
  "EncodeToString [] = []"
| "EncodeToString [a] =
     (let v = unat a * 65536 in
        [b64_char (v div 262144), b64_char (v div 4096), CHR ''='', CHR ''=''])"
| "EncodeToString [a, b] =
     (let v = unat a * 65536 + unat b * 256 in
        [b64_char (v div 262144), b64_char (v div 4096), b64_char (v div 64), CHR ''=''])"
| "EncodeToString (a # b # c # rest) =
     (let v = unat a * 65536 + unat b * 256 + unat c in
        [b64_char (v div 262144), b64_char (v div 4096), b64_char (v div 64), b64_char v])
     @ EncodeToString rest"

paragraph \<open>FNV-1a, 32 bits\<close>

definition fnv32a :: "byte list \<Rightarrow> w32" where
  "fnv32a bs = foldl (\<lambda>h b. (h XOR ucast b) * 16777619) 2166136261 bs"

paragraph \<open>Random UUIDs\<close>

text \<open>
  \<^verbatim>\<open>uuid.New\<close> draws 16 random bytes and stamps the version (4) and the variant (RFC 4122)
  on bytes 6 and 8. The random bytes are an input of the model, a 128-bit word read
  big-endian; a failure of the random source, on which \<^verbatim>\<open>uuid.New\<close> panics, is not
  modelled. \<^verbatim>\<open>String\<close> prints the bytes in lower-case hexadecimal, grouped 8-4-4-4-12.
\<close>

definition uuid_New :: "128 word \<Rightarrow> byte list" where
  "uuid_New rnd =
     (let u = be_bytes 16 rnd;
          u = u[6 := (u ! 6 AND 0x0f) OR 0x40];
          u = u[8 := (u ! 8 AND 0x3f) OR 0x80]
      in u)"

definition hex_char :: "nat \<Rightarrow> char" where
  "hex_char v = ''0123456789abcdef'' ! (v mod 16)"

definition hex_byte :: "byte \<Rightarrow> string" where
  "hex_byte b = [hex_char (unat b div 16), hex_char (unat b)]"

definition encodeHex :: "byte list \<Rightarrow> string" where
  "encodeHex bs = concat (map hex_byte bs)"

definition uuid_String :: "byte list \<Rightarrow> string" where
  "uuid_String u =
     encodeHex (take 4 u) @ ''-'' @ encodeHex (take 2 (drop 4 u)) @ ''-''
       @ encodeHex (take 2 (drop 6 u)) @ ''-'' @ encodeHex (take 2 (drop 8 u)) @ ''-''
       @ encodeHex (take 6 (drop 10 u))"

subsection \<open>Time\<close>

text \<open>
  A \<^verbatim>\<open>time.Time\<close> is modelled by the instant it denotes: the number of nanoseconds since
  the zero value of the type (January 1 of year 1, 00:00 UTC). \<^verbatim>\<open>UTC()\<close> changes the
  location of a time and not its instant, so it is the identity here. A
  \<^verbatim>\<open>time.Duration\<close> is a number of nanoseconds. The readings of \<^verbatim>\<open>time.Now()\<close> are inputs
  of the functions that take them.
\<close>

type_synonym Time = int
type_synonym Duration = int

definition zero_time :: Time where
  "zero_time = 0"

definition IsZero :: "Time \<Rightarrow> bool" where
  "IsZero t \<longleftrightarrow> t = zero_time"

definition After :: "Time \<Rightarrow> Time \<Rightarrow> bool" where
  "After t u \<longleftrightarrow> u < t"

definition Add :: "Time \<Rightarrow> Duration \<Rightarrow> Time" where
  "Add t d = t + d"

definition Hour :: Duration where
  "Hour = 3600 * 1000000000"

subsection \<open>The setup key\<close>

type_synonym SetupKeyType = string

definition SetupKeyReusable :: SetupKeyType where
  "SetupKeyReusable = ''reusable''"

definition SetupKeyOneOff :: SetupKeyType where
  "SetupKeyOneOff = ''one-off''"

definition DefaultSetupKeyDuration :: Duration where
  "DefaultSetupKeyDuration = 24 * 30 * Hour"

definition DefaultSetupKeyName :: string where
  "DefaultSetupKeyName = ''Default key''"

definition SetupKeyUnlimitedUsage :: "64 word" where
  "SetupKeyUnlimitedUsage = 0"

text \<open>
  The struct \<^verbatim>\<open>SetupKey\<close>. The field \<^verbatim>\<open>Id\<close> is written \<open>Id'\<close> (\<open>Id\<close> is the identity relation
  of HOL). The type of \<^verbatim>\<open>AutoGroups\<close> is a parameter: a list of strings where a key is
  handled as a value, a slice (a reference to a backing array) where the claim is about
  sharing.
\<close>

record 'g SetupKey =
  Id' :: string
  AccountID :: string
  Key :: string
  KeySecret :: string
  Name :: string
  Type :: SetupKeyType
  CreatedAt :: Time
  ExpiresAt :: Time
  UpdatedAt :: Time
  Revoked :: bool
  UsedTimes :: "64 word"
  LastUsed :: Time
  AutoGroups :: 'g
  UsageLimit :: "64 word"
  Ephemeral :: bool

type_synonym SetupKeyV = "string list SetupKey"

text \<open>
  The built-in \<^verbatim>\<open>copy(dst, src)\<close> on lists: the first \<open>min (len dst) (len src)\<close> elements
  of \<open>dst\<close> are replaced by those of \<open>src\<close>.
\<close>

definition copy_elems :: "'a list \<Rightarrow> 'a list \<Rightarrow> 'a list" where
  "copy_elems dst src =
     (let n = min (length dst) (length src) in take n src @ drop n dst)"

text \<open>
  \<^verbatim>\<open>Copy\<close> on values. The method writes to its receiver (the field \<^verbatim>\<open>UpdatedAt\<close>) before it
  builds the copy, so the model returns the receiver as the call leaves it, and the copy.
\<close>

definition Copy :: "SetupKeyV \<Rightarrow> SetupKeyV \<times> SetupKeyV" where
  "Copy key0 =
     (let autoGroups = copy_elems (replicate (length (AutoGroups key0)) []) (AutoGroups key0);
          key = (if IsZero (UpdatedAt key0) then key0\<lparr>UpdatedAt := CreatedAt key0\<rparr> else key0)
      in (key,
          \<lparr>Id' = Id' key, AccountID = AccountID key, Key = Key key, KeySecret = KeySecret key,
           Name = Name key, Type = Type key, CreatedAt = CreatedAt key,
           ExpiresAt = ExpiresAt key, UpdatedAt = UpdatedAt key, Revoked = Revoked key,
           UsedTimes = UsedTimes key, LastUsed = LastUsed key, AutoGroups = autoGroups,
           UsageLimit = UsageLimit key, Ephemeral = Ephemeral key\<rparr>))"

text \<open>\<^verbatim>\<open>EventMeta\<close>: the map \<^verbatim>\<open>{"name", "type", "key"}\<close>, as an association list.\<close>

definition EventMeta :: "'g SetupKey \<Rightarrow> (string \<times> string) list" where
  "EventMeta key = [(''name'', Name key), (''type'', Type key), (''key'', KeySecret key)]"

text \<open>
  \<^verbatim>\<open>hiddenKey\<close>. The slice \<^verbatim>\<open>key[0:5]\<close> takes bytes and panics on a key shorter than 5 bytes;
  \<^verbatim>\<open>len(prefix)\<close> is a number of bytes, \<^verbatim>\<open>utf8.RuneCountInString\<close> a number of characters.
\<close>

definition hiddenKey :: "string \<Rightarrow> int \<Rightarrow> error + string" where
  "hiddenKey key length0 =
     (if length key < 5 then Inl (Panic ''slice bounds out of range'')
      else
        let prefix = take 5 key;
            length1 = (if length0 > RuneCountInString key
                       then RuneCountInString key - int (length prefix) else length0)
        in case Repeat ''*'' length1 of
             Inl e \<Rightarrow> Inl e
           | Inr stars \<Rightarrow> Inr (prefix @ stars))"

text \<open>
  \<^verbatim>\<open>IncrementUsage\<close>, with the reading of the clock as an argument. The receiver is returned
  as \<^verbatim>\<open>Copy\<close> leaves it.
\<close>

definition IncrementUsage :: "Time \<Rightarrow> SetupKeyV \<Rightarrow> SetupKeyV \<times> SetupKeyV" where
  "IncrementUsage now key =
     (let (key1, c) = Copy key;
          c = c\<lparr>UsedTimes := UsedTimes c + 1\<rparr>;
          c = c\<lparr>LastUsed := now\<rparr>
      in (key1, c))"

definition IsRevoked :: "'g SetupKey \<Rightarrow> bool" where
  "IsRevoked key = Revoked key"

definition IsExpired :: "Time \<Rightarrow> 'g SetupKey \<Rightarrow> bool" where
  "IsExpired now key = (if IsZero (ExpiresAt key) then False else After now (ExpiresAt key))"

definition IsOverUsed :: "'g SetupKey \<Rightarrow> bool" where
  "IsOverUsed key =
     (let limit = UsageLimit key;
          limit = (if Type key = SetupKeyOneOff then 1 else limit)
      in 0 <s limit \<and> limit \<le>s UsedTimes key)"

definition IsValid :: "Time \<Rightarrow> 'g SetupKey \<Rightarrow> bool" where
  "IsValid now key \<longleftrightarrow> \<not> IsRevoked key \<and> \<not> IsExpired now key \<and> \<not> IsOverUsed key"

text \<open>\<^verbatim>\<open>Hash\<close>: FNV-1a of the bytes of a string.\<close>

definition Hash :: "string \<Rightarrow> w32" where
  "Hash s = fnv32a (bytes_of s)"

text \<open>
  \<^verbatim>\<open>GenerateSetupKey\<close>. Its environment is the random bytes \<^verbatim>\<open>uuid.New\<close> draws and the three
  readings of the clock, in the order the function takes them: for the expiry, for
  \<^verbatim>\<open>CreatedAt\<close> and for \<^verbatim>\<open>UpdatedAt\<close>. The fields the struct literal leaves out
  (\<^verbatim>\<open>AccountID\<close>, \<^verbatim>\<open>LastUsed\<close>) hold their zero values. The result is the pair of the record
  and the plaintext key, or the panic of \<^verbatim>\<open>hiddenKey\<close>.
\<close>

record GenEnv =
  random_bytes :: "128 word"
  now_expiry :: Time
  now_created :: Time
  now_updated :: Time

definition GenerateSetupKey ::
  "GenEnv \<Rightarrow> string \<Rightarrow> SetupKeyType \<Rightarrow> Duration \<Rightarrow> string list \<Rightarrow> 64 word \<Rightarrow> bool
     \<Rightarrow> error + (SetupKeyV \<times> string)" where
  "GenerateSetupKey env name t validFor autoGroups usageLimit ephemeral =
     (let key = ToUpper (uuid_String (uuid_New (random_bytes env)));
          limit = usageLimit;
          limit = (if t = SetupKeyOneOff then 1 else limit);
          expiresAt = zero_time;
          expiresAt = (if validFor \<noteq> 0 then Add (now_expiry env) validFor else expiresAt);
          hashedKey = Sum256 (bytes_of key);
          encodedHashedKey = EncodeToString hashedKey
      in case hiddenKey key 4 of
           Inl e \<Rightarrow> Inl e
         | Inr secret \<Rightarrow>
             Inr (\<lparr>Id' = Itoa (uint (Hash key)), AccountID = [], Key = encodedHashedKey,
                   KeySecret = secret, Name = name, Type = t,
                   CreatedAt = now_created env, ExpiresAt = expiresAt,
                   UpdatedAt = now_updated env, Revoked = False, UsedTimes = 0,
                   LastUsed = zero_time, AutoGroups = autoGroups, UsageLimit = limit,
                   Ephemeral = ephemeral\<rparr>, key))"

definition GenerateDefaultSetupKey :: "GenEnv \<Rightarrow> error + (SetupKeyV \<times> string)" where
  "GenerateDefaultSetupKey env =
     GenerateSetupKey env DefaultSetupKeyName SetupKeyReusable DefaultSetupKeyDuration []
       SetupKeyUnlimitedUsage False"

subsection \<open>Keys behind pointers\<close>

text \<open>
  \<^verbatim>\<open>Copy\<close> takes a pointer, allocates, and writes through its receiver. Where sharing
  matters the heap is explicit: the keys live in a list indexed by address, and so do the
  backing arrays of their \<^verbatim>\<open>AutoGroups\<close> slices. A pointer or a slice is \<open>None\<close> when it is
  \<^verbatim>\<open>nil\<close>. The file never reslices or appends, so a slice is its whole backing array.
  Allocation extends a list: a new address is the length of the list before.
\<close>

type_synonym addr = nat
type_synonym ptr = "addr option"
type_synonym slice = "addr option"

record Heap =
  keys :: "slice SetupKey list"
  arrays :: "string list list"

definition slice_elems :: "Heap \<Rightarrow> slice \<Rightarrow> string list" where
  "slice_elems h s = (case s of None \<Rightarrow> [] | Some b \<Rightarrow> arrays h ! b)"

definition len_slice :: "Heap \<Rightarrow> slice \<Rightarrow> nat" where
  "len_slice h s = length (slice_elems h s)"

text \<open>\<^verbatim>\<open>make([]string, n)\<close>: a new array of \<open>n\<close> empty strings.\<close>

definition make_slice :: "Heap \<Rightarrow> nat \<Rightarrow> Heap \<times> slice" where
  "make_slice h n = (h\<lparr>arrays := arrays h @ [replicate n []]\<rparr>, Some (length (arrays h)))"

text \<open>\<^verbatim>\<open>copy(dst, src)\<close> on slices.\<close>

definition copy_slice :: "Heap \<Rightarrow> slice \<Rightarrow> slice \<Rightarrow> Heap" where
  "copy_slice h dst src =
     (case dst of
        None \<Rightarrow> h
      | Some d \<Rightarrow> h\<lparr>arrays := (arrays h)[d := copy_elems (arrays h ! d) (slice_elems h src)]\<rparr>)"

text \<open>The assignment \<^verbatim>\<open>s[i] = v\<close>; it panics when \<open>i\<close> is out of range.\<close>

definition store_elem :: "Heap \<Rightarrow> slice \<Rightarrow> nat \<Rightarrow> string \<Rightarrow> error + Heap" where
  "store_elem h s i v =
     (if i < len_slice h s
      then (case s of
              None \<Rightarrow> Inl (Panic ''index out of range'')
            | Some b \<Rightarrow> Inr (h\<lparr>arrays := (arrays h)[b := (arrays h ! b)[i := v]]\<rparr>))
      else Inl (Panic ''index out of range''))"

definition new_key :: "Heap \<Rightarrow> slice SetupKey \<Rightarrow> Heap \<times> ptr" where
  "new_key h k = (h\<lparr>keys := keys h @ [k]\<rparr>, Some (length (keys h)))"

text \<open>A slice of a well-formed heap is \<^verbatim>\<open>nil\<close> or refers to an allocated array.\<close>

definition valid_slice :: "Heap \<Rightarrow> slice \<Rightarrow> bool" where
  "valid_slice h s = (case s of None \<Rightarrow> True | Some b \<Rightarrow> b < length (arrays h))"

text \<open>\<^verbatim>\<open>Copy\<close> as the source has it, on the heap.\<close>

definition Copy_ptr :: "Heap \<Rightarrow> ptr \<Rightarrow> error + (Heap \<times> ptr)" where
  "Copy_ptr h0 p =
     (case p of
        None \<Rightarrow> Inl (Panic ''nil pointer dereference'')
      | Some a \<Rightarrow>
          let (h1, autoGroups) = make_slice h0 (len_slice h0 (AutoGroups (keys h0 ! a)));
              h2 = copy_slice h1 autoGroups (AutoGroups (keys h1 ! a));
              h3 = (if IsZero (UpdatedAt (keys h2 ! a))
                    then h2\<lparr>keys := (keys h2)[a := (keys h2 ! a)\<lparr>UpdatedAt := CreatedAt (keys h2 ! a)\<rparr>]\<rparr>
                    else h2);
              key = keys h3 ! a
          in Inr (new_key h3
               \<lparr>Id' = Id' key, AccountID = AccountID key, Key = Key key,
                KeySecret = KeySecret key, Name = Name key, Type = Type key,
                CreatedAt = CreatedAt key, ExpiresAt = ExpiresAt key,
                UpdatedAt = UpdatedAt key, Revoked = Revoked key, UsedTimes = UsedTimes key,
                LastUsed = LastUsed key, AutoGroups = autoGroups,
                UsageLimit = UsageLimit key, Ephemeral = Ephemeral key\<rparr>))"

text \<open>The value a pointer denotes: the key with the elements of its slice.\<close>

definition deref :: "Heap \<Rightarrow> addr \<Rightarrow> SetupKeyV" where
  "deref h a =
     (let key = keys h ! a in
      \<lparr>Id' = Id' key, AccountID = AccountID key, Key = Key key,
       KeySecret = KeySecret key, Name = Name key, Type = Type key,
       CreatedAt = CreatedAt key, ExpiresAt = ExpiresAt key,
       UpdatedAt = UpdatedAt key, Revoked = Revoked key, UsedTimes = UsedTimes key,
       LastUsed = LastUsed key, AutoGroups = slice_elems h (AutoGroups key),
       UsageLimit = UsageLimit key, Ephemeral = Ephemeral key\<rparr>)"

subsection \<open>Accounts, users, the store and the event log\<close>

text \<open>
  The account manager works on collaborators whose code is not in the file: the store,
  the users, the groups, the activity log. They are modelled from section 6 of the
  specification. Reads return values and a write stores a value: the store keeps
  snapshots, never a reference into the memory of a caller. The lock a mutation holds
  (\<^verbatim>\<open>AcquireWriteLockByUID\<close>) is not modelled; an operation is one step.
\<close>

record Group =
  group_ID :: string
  group_Name :: string

record User =
  user_Id :: string
  user_AccountID :: string
  user_admin_or_service :: bool

text \<open>
  The map \<^verbatim>\<open>SetupKeys\<close> is an association list: its order stands for the order in which
  this run's \<^verbatim>\<open>range\<close> visits the map, which Go leaves open.
\<close>

record Account =
  account_Id :: string
  Groups :: "string \<rightharpoonup> Group"
  SetupKeys :: "(string \<times> SetupKeyV) list"

datatype Activity =
    SetupKeyCreated | SetupKeyRevoked | SetupKeyDeleted
  | GroupAddedToSetupKey | GroupRemovedFromSetupKey

record Event =
  event_initiator :: string
  event_target :: string
  event_account :: string
  event_activity :: Activity
  event_meta :: "(string \<times> string) list"

datatype StoreOp =
    OpGetAccount | OpSaveAccount | OpGetUserByUserID
  | OpGetAccountSetupKeys | OpGetSetupKeyByID | OpDeleteSetupKey

text \<open>
  The state the operations run on. \<open>Faults\<close> says which calls of the store fail, and with
  which error: the cause of such a failure (a lost connection, a full disk) is outside
  the file.
\<close>

record World =
  Accounts :: "Account list"
  Users :: "User list"
  Faults :: "StoreOp \<Rightarrow> error option"
  Events :: "Event list"
  Logs :: "string list"

text \<open>
  Modelled from the spec: \<^verbatim>\<open>Store.GetAccount\<close>, missing from the sources;
  \<open>getTenant(id) -> state|NotFound\<close>.
\<close>

definition GetAccount :: "World \<Rightarrow> string \<Rightarrow> error + Account" where
  "GetAccount w accountID =
     (case Faults w OpGetAccount of
        Some e \<Rightarrow> Inl e
      | None \<Rightarrow>
          (case find (\<lambda>a. account_Id a = accountID) (Accounts w) of
             None \<Rightarrow> Inl (Status NotFound ''account not found'')
           | Some a \<Rightarrow> Inr a))"

text \<open>
  Modelled from the spec: \<^verbatim>\<open>Store.SaveAccount\<close>, missing from the sources;
  \<open>saveTenant(state) -> ok|error\<close>, an atomic replace.
\<close>

definition SaveAccount :: "World \<Rightarrow> Account \<Rightarrow> error + World" where
  "SaveAccount w account =
     (case Faults w OpSaveAccount of
        Some e \<Rightarrow> Inl e
      | None \<Rightarrow>
          Inr (w\<lparr>Accounts :=
                 account # filter (\<lambda>a. account_Id a \<noteq> account_Id account) (Accounts w)\<rparr>))"

text \<open>
  Modelled from the spec: \<^verbatim>\<open>Store.GetUserByUserID\<close>, missing from the sources;
  \<open>getUserById(shared, userId) -> {isAdminOrService, tenantId}|error\<close>.
\<close>

definition GetUserByUserID :: "World \<Rightarrow> string \<Rightarrow> error + User" where
  "GetUserByUserID w userID =
     (case Faults w OpGetUserByUserID of
        Some e \<Rightarrow> Inl e
      | None \<Rightarrow>
          (case find (\<lambda>u. user_Id u = userID) (Users w) of
             None \<Rightarrow> Inl (Status NotFound ''user not found'')
           | Some u \<Rightarrow> Inr u))"

text \<open>
  Modelled from the spec: \<^verbatim>\<open>User.IsAdminOrServiceUser\<close>, missing from the sources; the
  flag \<open>isAdminOrService\<close> of the authorization lookup.
\<close>

definition IsAdminOrServiceUser :: "User \<Rightarrow> bool" where
  "IsAdminOrServiceUser u = user_admin_or_service u"

text \<open>
  Modelled from the spec: \<^verbatim>\<open>Store.GetAccountSetupKeys\<close>, missing from the sources;
  \<open>getSetupKeysByTenant(shared, tenantId)\<close>, all keys of the tenant as stored.
\<close>

definition GetAccountSetupKeys :: "World \<Rightarrow> string \<Rightarrow> error + SetupKeyV list" where
  "GetAccountSetupKeys w accountID =
     (case Faults w OpGetAccountSetupKeys of
        Some e \<Rightarrow> Inl e
      | None \<Rightarrow>
          (case find (\<lambda>a. account_Id a = accountID) (Accounts w) of
             None \<Rightarrow> Inl (Status NotFound ''account not found'')
           | Some a \<Rightarrow> Inr (map snd (SetupKeys a))))"

text \<open>
  Modelled from the spec: \<^verbatim>\<open>Store.GetSetupKeyByID\<close>, missing from the sources;
  \<open>getSetupKeyById(shared, keyId, tenantId)\<close>, NotFound if the id does not resolve.
\<close>

definition GetSetupKeyByID :: "World \<Rightarrow> string \<Rightarrow> string \<Rightarrow> error + SetupKeyV" where
  "GetSetupKeyByID w keyID accountID =
     (case Faults w OpGetSetupKeyByID of
        Some e \<Rightarrow> Inl e
      | None \<Rightarrow>
          (case find (\<lambda>a. account_Id a = accountID) (Accounts w) of
             None \<Rightarrow> Inl (Status NotFound ''setup key not found'')
           | Some a \<Rightarrow>
               (case find (\<lambda>k. Id' k = keyID) (map snd (SetupKeys a)) of
                  None \<Rightarrow> Inl (Status NotFound ''setup key not found'')
                | Some k \<Rightarrow> Inr k)))"

text \<open>
  Modelled from the spec: \<^verbatim>\<open>Store.DeleteSetupKey\<close>, missing from the sources;
  \<open>deleteSetupKey(tenantId, keyId)\<close> removes the key from the tenant's collection and
  persists.
\<close>

definition Store_DeleteSetupKey :: "World \<Rightarrow> string \<Rightarrow> string \<Rightarrow> error + World" where
  "Store_DeleteSetupKey w accountID keyID =
     (case Faults w OpDeleteSetupKey of
        Some e \<Rightarrow> Inl e
      | None \<Rightarrow>
          Inr (w\<lparr>Accounts :=
                 map (\<lambda>a. if account_Id a = accountID
                           then a\<lparr>SetupKeys := filter (\<lambda>(d, k). Id' k \<noteq> keyID) (SetupKeys a)\<rparr>
                           else a)
                   (Accounts w)\<rparr>))"

text \<open>
  Modelled from the spec: \<^verbatim>\<open>am.StoreEvent\<close>, missing from the sources;
  \<open>record(actingUser, subjectId, tenantId, eventKind, metadata-map)\<close>, fire-and-forget.
\<close>

definition StoreEvent ::
  "World \<Rightarrow> string \<Rightarrow> string \<Rightarrow> string \<Rightarrow> Activity \<Rightarrow> (string \<times> string) list \<Rightarrow> World" where
  "StoreEvent w initiatorID targetID accountID activityID meta =
     w\<lparr>Events := Events w @
         [\<lparr>event_initiator = initiatorID, event_target = targetID, event_account = accountID,
           event_activity = activityID, event_meta = meta\<rparr>]\<rparr>"

text \<open>The logger: \<^verbatim>\<open>log.WithContext(ctx).Errorf\<close> appends a line.\<close>

definition log_Errorf :: "World \<Rightarrow> string \<Rightarrow> World" where
  "log_Errorf w line = w\<lparr>Logs := Logs w @ [line]\<rparr>"

text \<open>
  Modelled from the spec: \<^verbatim>\<open>Account.GetGroup\<close>, missing from the sources; a referenced
  group is resolved to its display name, or not resolved.
\<close>

definition GetGroup :: "Account \<Rightarrow> string \<Rightarrow> Group option" where
  "GetGroup account groupID = Groups account groupID"

text \<open>
  Modelled from the spec: \<^verbatim>\<open>difference\<close>, missing from the sources; the ids present in
  the first list only.
\<close>

definition difference :: "string list \<Rightarrow> string list \<Rightarrow> string list" where
  "difference a b = filter (\<lambda>x. x \<notin> set b) a"

text \<open>
  Modelled from the spec: \<^verbatim>\<open>status.NewUnauthorizedToViewSetupKeysError\<close>, missing from the
  sources; the Unauthorized error of section 7. Its message is not in the sources.
\<close>

definition NewUnauthorizedToViewSetupKeysError :: error where
  "NewUnauthorizedToViewSetupKeysError = Status Unauthorized []"

subsection \<open>The operations of the account manager\<close>

text \<open>\<^verbatim>\<open>validateSetupKeyAutoGroups\<close>: \<open>None\<close> is the \<^verbatim>\<open>nil\<close> error.\<close>

fun validateSetupKeyAutoGroups :: "Account \<Rightarrow> string list \<Rightarrow> error option" where
  "validateSetupKeyAutoGroups account [] = None"
| "validateSetupKeyAutoGroups account (grp # rest) =
     (case Groups account grp of
        None \<Rightarrow> Some (Status NotFound (''group '' @ grp @ '' doesn't exist''))
      | Some g \<Rightarrow>
          if group_Name g = ''All''
          then Some (Status InvalidArgument ''can't add All group to the setup key'')
          else validateSetupKeyAutoGroups account rest)"

text \<open>
  The loops that report the groups of a key: an event for a group that resolves, a line
  of the log for one that does not.
\<close>

definition group_not_found_line :: "string \<Rightarrow> Account \<Rightarrow> string" where
  "group_not_found_line g account =
     ''group '' @ g @ '' not found while saving setup key activity event of account ''
       @ account_Id account"

definition group_event ::
  "Account \<Rightarrow> string \<Rightarrow> string \<Rightarrow> string \<Rightarrow> Activity \<Rightarrow> string \<Rightarrow> World \<Rightarrow> string \<Rightarrow> World" where
  "group_event account userID targetID accountID activityID keyName w g =
     (case GetGroup account g of
        Some grp \<Rightarrow>
          StoreEvent w userID targetID accountID activityID
            [(''group'', group_Name grp), (''group_id'', group_ID grp), (''setupkey'', keyName)]
      | None \<Rightarrow> log_Errorf w (group_not_found_line g account))"

text \<open>
  \<^verbatim>\<open>CreateSetupKey\<close>. The result is the state the call leaves and what it returns; a run-time
  panic of the generator is returned as an error value.
\<close>

definition CreateSetupKey ::
  "GenEnv \<Rightarrow> World \<Rightarrow> string \<Rightarrow> string \<Rightarrow> SetupKeyType \<Rightarrow> Duration \<Rightarrow> string list
     \<Rightarrow> 64 word \<Rightarrow> string \<Rightarrow> bool \<Rightarrow> World \<times> (error + SetupKeyV)" where
  "CreateSetupKey env w accountID keyName keyType expiresIn autoGroups usageLimit userID ephemeral =
     (case GetAccount w accountID of
        Inl err \<Rightarrow> (w, Inl err)
      | Inr account \<Rightarrow>
     (case validateSetupKeyAutoGroups account autoGroups of
        Some err \<Rightarrow> (w, Inl err)
      | None \<Rightarrow>
     (case GenerateSetupKey env keyName keyType expiresIn autoGroups usageLimit ephemeral of
        Inl err \<Rightarrow> (w, Inl err)
      | Inr (setupKey, plainKey) \<Rightarrow>
          let account = account\<lparr>SetupKeys :=
                          AList.update (Key setupKey) setupKey (SetupKeys account)\<rparr>
          in
     (case SaveAccount w account of
        Inl err \<Rightarrow> (w, Inl (Status Internal ''failed adding account key''))
      | Inr w1 \<Rightarrow>
          let w2 = StoreEvent w1 userID (Id' setupKey) accountID SetupKeyCreated
                     (EventMeta setupKey);
              w3 = foldl (group_event account userID (Id' setupKey) accountID
                            GroupAddedToSetupKey (Name setupKey))
                     w2 (AutoGroups setupKey);
              setupKey = setupKey\<lparr>Key := plainKey\<rparr>
          in (w3, Inr setupKey)))))"

text \<open>
  The search of \<^verbatim>\<open>SaveSetupKey\<close> for the key to update: the first key the iteration meets
  whose \<^verbatim>\<open>Id\<close> is the one asked for. \<^verbatim>\<open>Copy\<close> writes to the key it copies, which is the key
  the map of the account points to, so the collection is returned as that call leaves it.
\<close>

fun find_old_key ::
  "string \<Rightarrow> (string \<times> SetupKeyV) list \<Rightarrow> ((string \<times> SetupKeyV) list \<times> SetupKeyV) option" where
  "find_old_key keyId [] = None"
| "find_old_key keyId ((d, key) # rest) =
     (if Id' key = keyId
      then (let (key1, oldKey) = Copy key in Some ((d, key1) # rest, oldKey))
      else (case find_old_key keyId rest of
              None \<Rightarrow> None
            | Some (rest1, oldKey) \<Rightarrow> Some ((d, key) # rest1, oldKey)))"

text \<open>
  \<^verbatim>\<open>SaveSetupKey\<close>, with the reading of the clock as an argument; \<open>None\<close> is a \<^verbatim>\<open>nil\<close>
  \<^verbatim>\<open>keyToSave\<close>. The deferred function runs when the call returns after the \<^verbatim>\<open>defer\<close>
  statement, that is on the successful path only.
\<close>

definition SaveSetupKey ::
  "Time \<Rightarrow> World \<Rightarrow> string \<Rightarrow> SetupKeyV option \<Rightarrow> string \<Rightarrow> World \<times> (error + SetupKeyV)" where
  "SaveSetupKey now w accountID keyToSave0 userID =
     (case keyToSave0 of
        None \<Rightarrow> (w, Inl (Status InvalidArgument ''provided setup key to update is nil''))
      | Some keyToSave \<Rightarrow>
     (case GetAccount w accountID of
        Inl err \<Rightarrow> (w, Inl err)
      | Inr account0 \<Rightarrow>
     (case find_old_key (Id' keyToSave) (SetupKeys account0) of
        None \<Rightarrow> (w, Inl (Status NotFound ''setup key not found''))
      | Some (keys1, oldKey0) \<Rightarrow>
          let account1 = account0\<lparr>SetupKeys := keys1\<rparr> in
     (case validateSetupKeyAutoGroups account1 (AutoGroups keyToSave) of
        Some err \<Rightarrow> (w, Inl err)
      | None \<Rightarrow>
          let (oldKey, newKey) = Copy oldKey0;
              newKey = newKey\<lparr>Name := Name keyToSave\<rparr>;
              newKey = newKey\<lparr>AutoGroups := AutoGroups keyToSave\<rparr>;
              newKey = newKey\<lparr>Revoked := Revoked keyToSave\<rparr>;
              newKey = newKey\<lparr>UpdatedAt := now\<rparr>;
              account = account1\<lparr>SetupKeys :=
                          AList.update (Key newKey) newKey (SetupKeys account1)\<rparr>
          in
     (case SaveAccount w account of
        Inl err \<Rightarrow> (w, Inl err)
      | Inr w1 \<Rightarrow>
          let w2 = (if \<not> Revoked oldKey \<and> Revoked newKey
                    then StoreEvent w1 userID (Id' newKey) accountID SetupKeyRevoked
                           (EventMeta newKey)
                    else w1);
              addedGroups = difference (AutoGroups newKey) (AutoGroups oldKey);
              removedGroups = difference (AutoGroups oldKey) (AutoGroups newKey);
              w3 = foldl (group_event account userID (Id' oldKey) accountID
                            GroupRemovedFromSetupKey (Name newKey))
                     w2 removedGroups;
              w4 = foldl (group_event account userID (Id' oldKey) accountID
                            GroupAddedToSetupKey (Name newKey))
                     w3 addedGroups
          in (w4, Inr newKey))))))"

definition ListSetupKeys ::
  "World \<Rightarrow> string \<Rightarrow> string \<Rightarrow> World \<times> (error + SetupKeyV list)" where
  "ListSetupKeys w accountID userID =
     (case GetUserByUserID w userID of
        Inl err \<Rightarrow> (w, Inl err)
      | Inr user \<Rightarrow>
          if \<not> IsAdminOrServiceUser user \<or> user_AccountID user \<noteq> accountID
          then (w, Inl NewUnauthorizedToViewSetupKeysError)
          else (case GetAccountSetupKeys w accountID of
                  Inl err \<Rightarrow> (w, Inl err)
                | Inr setupKeys \<Rightarrow> (w, Inr setupKeys)))"

definition GetSetupKey ::
  "World \<Rightarrow> string \<Rightarrow> string \<Rightarrow> string \<Rightarrow> World \<times> (error + SetupKeyV)" where
  "GetSetupKey w accountID userID keyID =
     (case GetUserByUserID w userID of
        Inl err \<Rightarrow> (w, Inl err)
      | Inr user \<Rightarrow>
          if \<not> IsAdminOrServiceUser user \<or> user_AccountID user \<noteq> accountID
          then (w, Inl NewUnauthorizedToViewSetupKeysError)
          else (case GetSetupKeyByID w keyID accountID of
                  Inl err \<Rightarrow> (w, Inl err)
                | Inr setupKey \<Rightarrow>
                    (w, Inr (if IsZero (UpdatedAt setupKey)
                             then setupKey\<lparr>UpdatedAt := CreatedAt setupKey\<rparr>
                             else setupKey))))"

text \<open>\<^verbatim>\<open>DeleteSetupKey\<close> returns an error or \<^verbatim>\<open>nil\<close> (\<open>None\<close>).\<close>

definition DeleteSetupKey ::
  "World \<Rightarrow> string \<Rightarrow> string \<Rightarrow> string \<Rightarrow> World \<times> error option" where
  "DeleteSetupKey w accountID userID keyID =
     (case GetUserByUserID w userID of
        Inl err \<Rightarrow> (w, Some (Errorf ''failed to get user: '' err))
      | Inr user \<Rightarrow>
          if \<not> IsAdminOrServiceUser user \<or> user_AccountID user \<noteq> accountID
          then (w, Some NewUnauthorizedToViewSetupKeysError)
          else
     (case GetSetupKeyByID w keyID accountID of
        Inl err \<Rightarrow> (w, Some (Errorf ''failed to get setup key: '' err))
      | Inr deletedSetupKey \<Rightarrow>
     (case Store_DeleteSetupKey w accountID keyID of
        Inl err \<Rightarrow> (w, Some (Errorf ''failed to delete setup key: '' err))
      | Inr w1 \<Rightarrow>
          (StoreEvent w1 userID keyID accountID SetupKeyDeleted (EventMeta deletedSetupKey),
           None))))"

subsection \<open>Names used in the statements\<close>

text \<open>
  The plaintext key of a generation: the first line of \<^verbatim>\<open>GenerateSetupKey\<close>,
  \<^verbatim>\<open>strings.ToUpper(uuid.New().String())\<close>.
\<close>

definition plain_key :: "GenEnv \<Rightarrow> string" where
  "plain_key env = ToUpper (uuid_String (uuid_New (random_bytes env)))"

text \<open>
  The effective limit as the specification words it (section 4.2): 1 when the type is
  one-off, otherwise the stored usage limit. The source has no such function; it
  computes the value inside \<^verbatim>\<open>IsOverUsed\<close>.
\<close>

definition spec_effectiveLimit :: "'g SetupKey \<Rightarrow> 64 word" where
  "spec_effectiveLimit key = (if Type key = SetupKeyOneOff then 1 else UsageLimit key)"


text \<open>
  A key as \<^verbatim>\<open>Copy\<close> leaves its receiver: \<^verbatim>\<open>UpdatedAt\<close> takes the value of \<^verbatim>\<open>CreatedAt\<close> when
  it was the zero time, and nothing else changes.
\<close>

definition touched :: "'g SetupKey \<Rightarrow> 'g SetupKey" where
  "touched key =
     key\<lparr>UpdatedAt := (if IsZero (UpdatedAt key) then CreatedAt key else UpdatedAt key)\<rparr>"

text \<open>
  An id passes the validation of auto groups when it names a group of the account that
  is not the group called \<^verbatim>\<open>All\<close>.
\<close>

definition group_ok :: "Account \<Rightarrow> string \<Rightarrow> bool" where
  "group_ok account g =
     (case Groups account g of None \<Rightarrow> False | Some grp \<Rightarrow> group_Name grp \<noteq> ''All'')"

subsection \<open>Examples\<close>

text \<open>Concrete inputs, on which the statements below are instantiated.\<close>

definition example_env :: GenEnv where
  "example_env =
     \<lparr>random_bytes = 0x0123456789abcdeffedcba9876543210, now_expiry = 100,
      now_created = 101, now_updated = 102\<rparr>"

definition used_one_off_key :: SetupKeyV where
  "used_one_off_key =
     \<lparr>Id' = ''7'', AccountID = ''acc'', Key = ''digest'', KeySecret = ''ABCDE****'',
      Name = ''laptop'', Type = SetupKeyOneOff, CreatedAt = 10, ExpiresAt = 0,
      UpdatedAt = 10, Revoked = False, UsedTimes = 1, LastUsed = 20,
      AutoGroups = [''g1''], UsageLimit = 100, Ephemeral = False\<rparr>"

definition unlimited_key :: SetupKeyV where
  "unlimited_key =
     \<lparr>Id' = ''8'', AccountID = ''acc'', Key = ''digest2'', KeySecret = ''FGHIJ****'',
      Name = ''fleet'', Type = SetupKeyReusable, CreatedAt = 10, ExpiresAt = 0,
      UpdatedAt = 10, Revoked = False, UsedTimes = 5000, LastUsed = 20,
      AutoGroups = [], UsageLimit = 0, Ephemeral = False\<rparr>"

definition example_groups :: "string \<rightharpoonup> Group" where
  "example_groups =
     [''g1'' \<mapsto> \<lparr>group_ID = ''g1'', group_Name = ''devs''\<rparr>,
      ''g0'' \<mapsto> \<lparr>group_ID = ''g0'', group_Name = ''All''\<rparr>]"

text \<open>A key as the store holds it; it was written before \<^verbatim>\<open>UpdatedAt\<close> existed.\<close>

definition stored_key :: SetupKeyV where
  "stored_key =
     \<lparr>Id' = ''7'', AccountID = ''acc'', Key = ''digest'', KeySecret = ''ABCDE****'',
      Name = ''laptop'', Type = SetupKeyReusable, CreatedAt = 10, ExpiresAt = 500,
      UpdatedAt = 0, Revoked = False, UsedTimes = 2, LastUsed = 20,
      AutoGroups = [], UsageLimit = 5, Ephemeral = False\<rparr>"

definition example_account :: Account where
  "example_account =
     \<lparr>account_Id = ''acc'', Groups = example_groups, SetupKeys = [(''digest'', stored_key)]\<rparr>"

text \<open>
  Three users: an admin of the account, a user of the account who is no admin, and an
  admin of another account.
\<close>

definition admin_user :: User where
  "admin_user = \<lparr>user_Id = ''admin'', user_AccountID = ''acc'', user_admin_or_service = True\<rparr>"

definition guest_user :: User where
  "guest_user = \<lparr>user_Id = ''guest'', user_AccountID = ''acc'', user_admin_or_service = False\<rparr>"

definition foreign_admin :: User where
  "foreign_admin =
     \<lparr>user_Id = ''other'', user_AccountID = ''acc2'', user_admin_or_service = True\<rparr>"

definition example_world :: World where
  "example_world =
     \<lparr>Accounts = [example_account], Users = [admin_user, guest_user, foreign_admin],
      Faults = (\<lambda>_. None), Events = [], Logs = []\<rparr>"

text \<open>
  A desired state for \<^verbatim>\<open>SaveSetupKey\<close>: it asks for a new name, a group and the revocation,
  and also for another key, type and usage limit.
\<close>

definition desired_key :: SetupKeyV where
  "desired_key =
     \<lparr>Id' = ''7'', AccountID = ''acc9'', Key = ''other'', KeySecret = ''ZZZZZ****'',
      Name = ''renamed'', Type = SetupKeyOneOff, CreatedAt = 11, ExpiresAt = 900,
      UpdatedAt = 12, Revoked = True, UsedTimes = 0, LastUsed = 0,
      AutoGroups = [''g1''], UsageLimit = 77, Ephemeral = True\<rparr>"

definition saved_key :: SetupKeyV where
  "saved_key =
     \<lparr>Id' = ''7'', AccountID = ''acc'', Key = ''digest'', KeySecret = ''ABCDE****'',
      Name = ''renamed'', Type = SetupKeyReusable, CreatedAt = 10, ExpiresAt = 500,
      UpdatedAt = 200, Revoked = True, UsedTimes = 2, LastUsed = 20,
      AutoGroups = [''g1''], UsageLimit = 5, Ephemeral = False\<rparr>"

text \<open>The same desired state, asking for the group called \<^verbatim>\<open>All\<close> as well.\<close>

definition desired_key_with_All :: SetupKeyV where
  "desired_key_with_All = desired_key\<lparr>AutoGroups := [''g1'', ''g0'']\<rparr>"

text \<open>What \<^verbatim>\<open>CreateSetupKey\<close> returns in the example: the key carries the plaintext.\<close>

definition created_key :: SetupKeyV where
  "created_key =
     \<lparr>Id' = Itoa (uint (Hash (plain_key example_env))), AccountID = [],
      Key = plain_key example_env, KeySecret = take 5 (plain_key example_env) @ ''****'',
      Name = ''server'', Type = SetupKeyReusable, CreatedAt = 101, ExpiresAt = 150,
      UpdatedAt = 102, Revoked = False, UsedTimes = 0, LastUsed = 0,
      AutoGroups = [''g1''], UsageLimit = 5, Ephemeral = False\<rparr>"

text \<open>A heap with one key, written before \<^verbatim>\<open>UpdatedAt\<close> existed, and its two groups.\<close>

definition example_heap :: Heap where
  "example_heap =
     \<lparr>keys = [\<lparr>Id' = ''7'', AccountID = ''acc'', Key = ''digest'', KeySecret = ''ABCDE****'',
               Name = ''laptop'', Type = SetupKeyReusable, CreatedAt = 10, ExpiresAt = 500,
               UpdatedAt = 0, Revoked = False, UsedTimes = 2, LastUsed = 20,
               AutoGroups = Some 0, UsageLimit = 5, Ephemeral = False\<rparr>],
      arrays = [[''g1'', ''g2'']]\<rparr>"


section \<open>Properties\<close>

subsection \<open>The libraries\<close>

lemma length_be_bytes: "length (be_bytes n w) = n"
  by (simp add: be_bytes_def)

lemma length_state_bytes: "length (state_bytes s) = 32"
  by (simp add: state_bytes_def length_be_bytes split: prod.split)

lemma length_Sum256: "length (Sum256 msg) = 32"
  by (simp add: Sum256_def Let_def length_state_bytes)

lemma length_EncodeToString: "length (EncodeToString bs) = 4 * ((length bs + 2) div 3)"
proof (induction bs rule: EncodeToString.induct)
  case (4 a b c rest)
  have "length (EncodeToString (a # b # c # rest)) = 4 + length (EncodeToString rest)"
    by (simp add: Let_def)
  also have "\<dots> = 4 + 4 * ((length rest + 2) div 3)"
    using 4 by simp
  also have "\<dots> = 4 * ((length (a # b # c # rest) + 2) div 3)"
    by simp arith
  finally show ?case .
qed (simp_all add: Let_def)

lemma length_digest: "length (EncodeToString (Sum256 bs)) = 44"
  by (simp add: length_EncodeToString length_Sum256)

lemma length_encodeHex: "length (encodeHex bs) = 2 * length bs"
  by (induction bs) (simp_all add: encodeHex_def hex_byte_def)

lemma length_uuid_New: "length (uuid_New rnd) = 16"
  by (simp add: uuid_New_def Let_def length_be_bytes)

lemma length_uuid_String: "length u = 16 \<Longrightarrow> length (uuid_String u) = 36"
  by (simp add: uuid_String_def length_encodeHex)

lemma length_ToUpper: "length (ToUpper s) = length s"
  by (simp add: ToUpper_def)

lemma length_plain_key: "length (plain_key env) = 36"
  by (simp add: plain_key_def length_ToUpper length_uuid_String length_uuid_New)

text \<open>The digest of a plaintext key is 44 characters long, the key 36: they differ.\<close>

lemma plain_key_not_digest:
  "EncodeToString (Sum256 (bytes_of (plain_key env))) \<noteq> plain_key env"
proof -
  have "length (EncodeToString (Sum256 (bytes_of (plain_key env)))) \<noteq> length (plain_key env)"
    by (simp add: length_digest length_plain_key)
  then show ?thesis by auto
qed

text \<open>A rune is between one and four bytes wide.\<close>

lemma rune_width_le: "rune_width c rest \<le> 4"
  by (simp add: rune_width_def Let_def)

lemma rune_count_lower: "length bs \<le> 4 * rune_count bs"
proof (induction bs rule: rune_count.induct)
  case 1
  show ?case by simp
next
  case (2 c rest)
  have "rune_width c rest \<le> 4" by (rule rune_width_le)
  with 2 show ?case by simp
qed

lemma rune_count_upper: "rune_count bs \<le> length bs"
proof (induction bs rule: rune_count.induct)
  case 1
  show ?case by simp
next
  case (2 c rest)
  then show ?case by simp
qed


lemma RuneCount_lower: "int (length s) \<le> 4 * RuneCountInString s"
  using rune_count_lower [of "bytes_of s"] by (simp add: RuneCountInString_def bytes_of_def)

lemma RuneCount_upper: "RuneCountInString s \<le> int (length s)"
  using rune_count_upper [of "bytes_of s"] by (simp add: RuneCountInString_def bytes_of_def)

lemma Repeat_star: "0 \<le> n \<Longrightarrow> Repeat ''*'' n = Inr (replicate (nat n) CHR ''*'')"
  by (simp add: Repeat_def concat_replicate_trivial
        flip: replicate_append_same map_replicate_const)

subsection \<open>The masked form of a key\<close>

text \<open>
  Where \<^verbatim>\<open>hiddenKey\<close> returns, and what. A requested length between 0 and the number of
  characters of the key is used as it is; a greater one is replaced by the number of
  characters less the five bytes of the prefix.
\<close>

lemma hiddenKey_unclamped:
  assumes "5 \<le> length key" and "0 \<le> n" and "n \<le> RuneCountInString key"
  shows "hiddenKey key n = Inr (take 5 key @ replicate (nat n) CHR ''*'')"
  using assms by (simp add: hiddenKey_def Let_def Repeat_star)




lemma hiddenKey_plain_key: "hiddenKey (plain_key env) 4 = Inr (take 5 (plain_key env) @ ''****'')"
proof -
  have "int (length (plain_key env)) \<le> 4 * RuneCountInString (plain_key env)"
    by (rule RuneCount_lower)
  then have "4 \<le> RuneCountInString (plain_key env)"
    by (simp add: length_plain_key)
  then have "hiddenKey (plain_key env) 4
      = Inr (take 5 (plain_key env) @ replicate (nat 4) CHR ''*'')"
    by (intro hiddenKey_unclamped) (simp_all add: length_plain_key)
  moreover have "replicate (nat 4) CHR ''*'' = ''****''"
    by (simp add: numeral_eq_Suc)
  ultimately show ?thesis by simp
qed










subsection \<open>The generator\<close>

text \<open>
  The generator never panics: it returns the record below and the plaintext key, whatever
  its arguments and its environment.
\<close>

lemma GenerateSetupKey_eq:
  "GenerateSetupKey env name t validFor autoGroups usageLimit ephemeral =
     Inr (\<lparr>Id' = Itoa (uint (Hash (plain_key env))), AccountID = [],
           Key = EncodeToString (Sum256 (bytes_of (plain_key env))),
           KeySecret = take 5 (plain_key env) @ ''****'', Name = name, Type = t,
           CreatedAt = now_created env,
           ExpiresAt = (if validFor \<noteq> 0 then now_expiry env + validFor else zero_time),
           UpdatedAt = now_updated env, Revoked = False, UsedTimes = 0,
           LastUsed = zero_time, AutoGroups = autoGroups,
           UsageLimit = (if t = SetupKeyOneOff then 1 else usageLimit),
           Ephemeral = ephemeral\<rparr>, plain_key env)"
  unfolding GenerateSetupKey_def Let_def plain_key_def [symmetric] hiddenKey_plain_key
  by (simp add: Add_def)

text \<open>
  C1. For every generated setup key, the \<^verbatim>\<open>Key\<close> of the record is the base64 (standard)
  encoding of the SHA-256 digest of the plaintext the generator returns with it, so that
  hashing the returned plaintext again gives the stored \<^verbatim>\<open>Key\<close>; and the stored \<^verbatim>\<open>Key\<close> is
  never the plaintext itself (the digest is 44 characters long, the plaintext 36).
\<close>

theorem generated_key_is_digest_of_plaintext:
  "\<exists>k plain. GenerateSetupKey env name t validFor autoGroups usageLimit ephemeral = Inr (k, plain)
     \<and> Key k = EncodeToString (Sum256 (bytes_of plain)) \<and> Key k \<noteq> plain"
  by (simp add: GenerateSetupKey_eq plain_key_not_digest)

subsection \<open>The masked form of generated keys\<close>













subsection \<open>Validity\<close>

lemma one_sless: "(0 :: 64 word) <s 1"
  by (simp add: word_sless_alt)

lemma one_sle: "(1 :: 64 word) \<le>s 1"
  by (simp add: word_sle_eq)

lemma IsOverUsed_OneOff:
  "Type key = SetupKeyOneOff \<Longrightarrow> IsOverUsed key \<longleftrightarrow> 1 \<le>s UsedTimes key"
  by (simp add: IsOverUsed_def Let_def one_sless)

lemma IncrementUsage_fields:
  "UsedTimes (snd (IncrementUsage now k)) = UsedTimes k + 1"
  "Type (snd (IncrementUsage now k)) = Type k"
  "UsageLimit (snd (IncrementUsage now k)) = UsageLimit k"
  "LastUsed (snd (IncrementUsage now k)) = now"
  by (simp_all add: IncrementUsage_def Copy_def Let_def split: prod.split)

text \<open>
  C4. For every key of type one-off the effective usage limit is 1, whatever usage limit
  was requested or is stored: such a key is over-used exactly when it has been used at
  least once. Generation of a one-off key stores the usage limit 1 for every requested
  limit (100, say), and after a single use (\<^verbatim>\<open>IncrementUsage\<close>, which makes \<^verbatim>\<open>UsedTimes\<close> 1)
  the key is over-used and not valid.
\<close>

theorem one_off_limit_is_one:
  "(\<exists>k plain. GenerateSetupKey env name SetupKeyOneOff validFor autoGroups usageLimit ephemeral
        = Inr (k, plain)
      \<and> UsageLimit k = 1
      \<and> UsedTimes (snd (IncrementUsage used_at k)) = 1
      \<and> IsOverUsed (snd (IncrementUsage used_at k))
      \<and> \<not> IsValid now (snd (IncrementUsage used_at k)))
   \<and> (Type key = SetupKeyOneOff \<longrightarrow>
        (IsOverUsed key \<longleftrightarrow> 1 \<le>s UsedTimes key)
        \<and> (UsedTimes key = 1 \<longrightarrow> IsOverUsed key \<and> \<not> IsValid now key))"
proof -
  let ?k = "fst (projr (GenerateSetupKey env name SetupKeyOneOff validFor autoGroups
                          usageLimit ephemeral))"
  let ?u = "snd (IncrementUsage used_at ?k)"
  have t: "Type ?u = SetupKeyOneOff" and n: "UsedTimes ?u = 1"
    by (simp_all add: IncrementUsage_fields GenerateSetupKey_eq)
  have o: "IsOverUsed ?u"
    using t n by (simp add: IsOverUsed_OneOff one_sle)
  then have v: "\<not> IsValid now ?u"
    by (simp add: IsValid_def)
  have gen: "\<exists>k plain. GenerateSetupKey env name SetupKeyOneOff validFor autoGroups usageLimit
          ephemeral = Inr (k, plain)
      \<and> UsageLimit k = 1
      \<and> UsedTimes (snd (IncrementUsage used_at k)) = 1
      \<and> IsOverUsed (snd (IncrementUsage used_at k))
      \<and> \<not> IsValid now (snd (IncrementUsage used_at k))"
    using n o v by (simp add: GenerateSetupKey_eq)
  have any: "Type key = SetupKeyOneOff \<longrightarrow>
        (IsOverUsed key \<longleftrightarrow> 1 \<le>s UsedTimes key)
        \<and> (UsedTimes key = 1 \<longrightarrow> IsOverUsed key \<and> \<not> IsValid now key)"
    by (simp add: IsOverUsed_OneOff one_sle IsValid_def)
  from gen any show ?thesis by (rule conjI)
qed

theorem one_off_limit_is_one_witness:
  "Type used_one_off_key = SetupKeyOneOff
   \<and> UsageLimit used_one_off_key = 100
   \<and> UsedTimes used_one_off_key = 1
   \<and> IsOverUsed used_one_off_key
   \<and> \<not> IsValid 30 used_one_off_key
   \<and> (\<exists>k plain.
         GenerateSetupKey example_env ''laptop'' SetupKeyOneOff 0 [''g1''] 100 False
           = Inr (k, plain)
         \<and> UsageLimit k = 1
         \<and> IsOverUsed (snd (IncrementUsage 20 k))
         \<and> \<not> IsValid 30 (snd (IncrementUsage 20 k)))"
proof -
  have "Type used_one_off_key = SetupKeyOneOff" "UsageLimit used_one_off_key = 100"
    "UsedTimes used_one_off_key = 1"
    by (simp_all add: used_one_off_key_def)
  with one_off_limit_is_one
    [of example_env "''laptop''" 0 "[''g1'']" 100 False 20 30 used_one_off_key]
  show ?thesis by blast
qed

text \<open>
  C5. For every key, \<^verbatim>\<open>IsOverUsed\<close> holds exactly when the effective limit (1 for a one-off
  key, the stored limit otherwise) is positive and \<^verbatim>\<open>UsedTimes\<close> is at least that limit; so
  a reusable key with the usage limit 0 is never over-used, however often it was used. And
  \<^verbatim>\<open>IsValid\<close> is the conjunction: not revoked, not expired, not over-used.
\<close>

theorem validity_predicates:
  "(IsOverUsed key \<longleftrightarrow>
      0 <s spec_effectiveLimit key \<and> spec_effectiveLimit key \<le>s UsedTimes key)
   \<and> (UsageLimit key = 0 \<and> Type key = SetupKeyReusable \<longrightarrow> \<not> IsOverUsed key)
   \<and> (IsValid now key \<longleftrightarrow> \<not> IsRevoked key \<and> \<not> IsExpired now key \<and> \<not> IsOverUsed key)"
  by (simp add: IsOverUsed_def Let_def spec_effectiveLimit_def IsValid_def
        SetupKeyReusable_def SetupKeyOneOff_def word_sless_alt)

theorem validity_predicates_witness:
  "UsageLimit unlimited_key = 0
   \<and> Type unlimited_key = SetupKeyReusable
   \<and> UsedTimes unlimited_key = 5000
   \<and> \<not> IsOverUsed unlimited_key"
proof -
  have "UsageLimit unlimited_key = 0" "Type unlimited_key = SetupKeyReusable"
    "UsedTimes unlimited_key = 5000"
    by (simp_all add: unlimited_key_def)
  with validity_predicates [of unlimited_key 30]
  show ?thesis by blast
qed

text \<open>
  C6. A key generated with \<^verbatim>\<open>validFor = 0\<close> has the zero value as \<^verbatim>\<open>ExpiresAt\<close> and is
  expired at no time. A key generated with a positive \<^verbatim>\<open>validFor\<close> has as \<^verbatim>\<open>ExpiresAt\<close> the
  time of the generation (the reading of the clock taken for the expiry) plus
  \<^verbatim>\<open>validFor\<close>, and is expired exactly at the times strictly after that instant. The clock
  is taken to read no instant before the zero value of \<^verbatim>\<open>time.Time\<close>.
\<close>

theorem expiry_of_generated_key:
  "(\<exists>k plain. GenerateSetupKey env name t 0 autoGroups usageLimit ephemeral = Inr (k, plain)
      \<and> ExpiresAt k = zero_time \<and> IsZero (ExpiresAt k) \<and> (\<forall>now. \<not> IsExpired now k))
   \<and> (0 < validFor \<and> 0 \<le> now_expiry env \<longrightarrow>
        (\<exists>k plain. GenerateSetupKey env name t validFor autoGroups usageLimit ephemeral
             = Inr (k, plain)
           \<and> ExpiresAt k = now_expiry env + validFor
           \<and> (\<forall>now. IsExpired now k \<longleftrightarrow> ExpiresAt k < now)))"
  by (simp add: GenerateSetupKey_eq IsExpired_def IsZero_def After_def zero_time_def)

theorem expiry_of_generated_key_witness:
  "(0 :: int) < 50
   \<and> 0 \<le> now_expiry example_env
   \<and> (\<exists>k plain.
         GenerateSetupKey example_env ''laptop'' SetupKeyReusable 50 [''g1''] 5 False
           = Inr (k, plain)
         \<and> ExpiresAt k = 150
         \<and> \<not> IsExpired 150 k \<and> IsExpired 151 k)"
proof -
  have "(0 :: int) < 50" "0 \<le> now_expiry example_env" "now_expiry example_env + 50 = 150"
    by (simp_all add: example_env_def)
  with expiry_of_generated_key
    [of example_env "''laptop''" SetupKeyReusable "[''g1'']" 5 False 50]
  show ?thesis by auto
qed

subsection \<open>Copy\<close>

lemma copy_elems_fresh: "copy_elems (replicate (length xs) y) xs = xs"
  by (simp add: copy_elems_def)

text \<open>On values, the copy and the receiver after the call are the same record.\<close>

lemma Copy_eq: "Copy key = (touched key, touched key)"
  by (cases key) (simp add: Copy_def Let_def copy_elems_fresh touched_def)

lemma rebuild_key:
  "\<lparr>Id' = Id' key, AccountID = AccountID key, Key = Key key,
    KeySecret = KeySecret key, Name = Name key, Type = Type key,
    CreatedAt = CreatedAt key, ExpiresAt = ExpiresAt key,
    UpdatedAt = UpdatedAt key, Revoked = Revoked key, UsedTimes = UsedTimes key,
    LastUsed = LastUsed key, AutoGroups = g,
    UsageLimit = UsageLimit key, Ephemeral = Ephemeral key\<rparr> = key\<lparr>AutoGroups := g\<rparr>"
  by (cases key) simp

lemma slice_elems_make:
  "valid_slice h s \<Longrightarrow> slice_elems (h\<lparr>arrays := arrays h @ [xs]\<rparr>) s = slice_elems h s"
  by (cases s) (simp_all add: slice_elems_def valid_slice_def nth_append)

text \<open>The heap and the pointer \<^verbatim>\<open>Copy\<close> returns, for a receiver that is allocated.\<close>

lemma Copy_ptr_eq:
  assumes "a < length (keys h)" and "valid_slice h (AutoGroups (keys h ! a))"
  shows "Copy_ptr h (Some a) =
     Inr (h\<lparr>keys := (keys h)[a := touched (keys h ! a)]
                   @ [(touched (keys h ! a))\<lparr>AutoGroups := Some (length (arrays h))\<rparr>],
            arrays := arrays h @ [slice_elems h (AutoGroups (keys h ! a))]\<rparr>,
          Some (length (keys h)))"
proof -
  let ?k = "keys h ! a"
  let ?xs = "slice_elems h (AutoGroups ?k)"
  let ?h1 = "h\<lparr>arrays := arrays h @ [replicate (length ?xs) []]\<rparr>"
  have m: "make_slice h (len_slice h (AutoGroups ?k)) = (?h1, Some (length (arrays h)))"
    by (simp add: make_slice_def len_slice_def)
  have e: "slice_elems ?h1 (AutoGroups ?k) = ?xs"
    using assms(2) by (rule slice_elems_make)
  have c: "copy_slice ?h1 (Some (length (arrays h))) (AutoGroups (keys ?h1 ! a))
      = h\<lparr>arrays := arrays h @ [?xs]\<rparr>"
    using e by (simp add: copy_slice_def copy_elems_fresh)
  show ?thesis
    unfolding Copy_ptr_def option.case m prod.case Let_def c
    using assms(1)
    by (simp add: new_key_def touched_def rebuild_key)
qed

lemma deref_eqI:
  assumes "keys h1 ! a = (keys h2 ! b)\<lparr>AutoGroups := g\<rparr>"
    and "slice_elems h1 g = slice_elems h2 (AutoGroups (keys h2 ! b))"
  shows "deref h1 a = deref h2 b"
  using assms by (simp add: deref_def Let_def)

lemma deref_touched:
  assumes "keys h1 ! a = touched (keys h ! a)"
    and "slice_elems h1 (AutoGroups (keys h ! a)) = slice_elems h (AutoGroups (keys h ! a))"
  shows "deref h1 a = fst (Copy (deref h a))"
  using assms by (simp add: deref_def Let_def Copy_eq touched_def)

text \<open>
  C10. \<^verbatim>\<open>Copy\<close> on an allocated key returns a pointer to a new key that equals the receiver
  (as the call leaves it) in every field but the slice \<^verbatim>\<open>AutoGroups\<close>, which refers to a
  newly allocated array holding the same group ids; so the two keys denote the same
  value, and an assignment to an element of the copy's \<^verbatim>\<open>AutoGroups\<close> leaves the receiver
  as it is (and the other way round). The call writes to its receiver: when the
  receiver's \<^verbatim>\<open>UpdatedAt\<close> is the zero time it becomes the receiver's \<^verbatim>\<open>CreatedAt\<close>; no other
  field of the receiver, no other key and no existing array changes.
\<close>

theorem Copy_allocates_and_touches_receiver:
  assumes "a < length (keys h)" and "valid_slice h (AutoGroups (keys h ! a))"
  shows "\<exists>h' c. Copy_ptr h (Some a) = Inr (h', Some c)
     \<and> c = length (keys h) \<and> length (keys h') = Suc (length (keys h))
     \<and> (IsZero (UpdatedAt (keys h ! a)) \<longrightarrow>
          keys h' ! a = (keys h ! a)\<lparr>UpdatedAt := CreatedAt (keys h ! a)\<rparr>)
     \<and> (\<not> IsZero (UpdatedAt (keys h ! a)) \<longrightarrow> keys h' ! a = keys h ! a)
     \<and> (\<forall>q < length (keys h). q \<noteq> a \<longrightarrow> keys h' ! q = keys h ! q)
     \<and> arrays h' = arrays h @ [slice_elems h (AutoGroups (keys h ! a))]
     \<and> AutoGroups (keys h' ! c) = Some (length (arrays h))
     \<and> AutoGroups (keys h' ! c) \<noteq> AutoGroups (keys h' ! a)
     \<and> keys h' ! c = (keys h' ! a)\<lparr>AutoGroups := AutoGroups (keys h' ! c)\<rparr>
     \<and> slice_elems h' (AutoGroups (keys h' ! c)) = slice_elems h (AutoGroups (keys h ! a))
     \<and> deref h' c = deref h' a
     \<and> Copy (deref h a) = (deref h' a, deref h' c)
     \<and> (\<forall>i v h''. store_elem h' (AutoGroups (keys h' ! c)) i v = Inr h'' \<longrightarrow>
            deref h'' a = deref h' a)
     \<and> (\<forall>i v h''. store_elem h' (AutoGroups (keys h' ! a)) i v = Inr h'' \<longrightarrow>
            deref h'' c = deref h' c)"
proof -
  let ?k = "keys h ! a"
  let ?L = "length (arrays h)"
  let ?xs = "slice_elems h (AutoGroups ?k)"
  define h' where "h' =
    h\<lparr>keys := (keys h)[a := touched ?k] @ [(touched ?k)\<lparr>AutoGroups := Some ?L\<rparr>],
      arrays := arrays h @ [?xs]\<rparr>"
  let ?c = "length (keys h)"
  have run: "Copy_ptr h (Some a) = Inr (h', Some ?c)"
    unfolding h'_def using assms by (rule Copy_ptr_eq)
  have ka: "keys h' ! a = touched ?k"
    using assms(1) by (simp add: h'_def nth_append)
  have kc: "keys h' ! ?c = (touched ?k)\<lparr>AutoGroups := Some ?L\<rparr>"
    by (simp add: h'_def nth_append)
  have ar: "arrays h' = arrays h @ [?xs]"
    by (simp add: h'_def)
  have ag: "AutoGroups (keys h' ! a) = AutoGroups ?k"
    by (simp add: ka touched_def)
  have old: "AutoGroups ?k \<noteq> Some ?L"
    using assms(2) by (auto simp: valid_slice_def)
  have ea: "slice_elems h' (AutoGroups ?k) = ?xs"
    using assms(2)
    by (cases "AutoGroups ?k") (simp_all add: slice_elems_def valid_slice_def ar nth_append)
  have ec: "slice_elems h' (Some ?L) = ?xs"
    by (simp add: slice_elems_def ar)
  have da: "deref h' a = fst (Copy (deref h a))"
    using ka ea by (rule deref_touched)
  have dc: "deref h' ?c = deref h' a"
    by (rule deref_eqI [where g = "Some ?L"]) (simp_all add: kc ka ec ea touched_def)
  have c1: "length (keys h') = Suc ?c"
    by (simp add: h'_def)
  have c2: "IsZero (UpdatedAt ?k) \<longrightarrow> keys h' ! a = ?k\<lparr>UpdatedAt := CreatedAt ?k\<rparr>"
    by (simp add: ka touched_def)
  have c3: "\<not> IsZero (UpdatedAt ?k) \<longrightarrow> keys h' ! a = ?k"
    by (simp add: ka touched_def)
  have c4: "\<forall>q < length (keys h). q \<noteq> a \<longrightarrow> keys h' ! q = keys h ! q"
    by (simp add: h'_def nth_append)
  have c6: "AutoGroups (keys h' ! ?c) = Some ?L"
    by (simp add: kc)
  have c7: "AutoGroups (keys h' ! ?c) \<noteq> AutoGroups (keys h' ! a)"
    using old by (simp add: kc ag)
  have c8: "keys h' ! ?c = (keys h' ! a)\<lparr>AutoGroups := AutoGroups (keys h' ! ?c)\<rparr>"
    by (simp add: kc ka)
  have c9: "slice_elems h' (AutoGroups (keys h' ! ?c)) = ?xs"
    by (simp add: kc ec)
  have c10: "Copy (deref h a) = (deref h' a, deref h' ?c)"
    by (simp add: dc da Copy_eq)
  have c11: "\<forall>i v h''. store_elem h' (AutoGroups (keys h' ! ?c)) i v = Inr h'' \<longrightarrow>
            deref h'' a = deref h' a"
  proof (intro allI impI)
    fix i v h''
    assume "store_elem h' (AutoGroups (keys h' ! ?c)) i v = Inr h''"
    then have h'': "h'' = h'\<lparr>arrays := (arrays h')[?L := (arrays h' ! ?L)[i := v]]\<rparr>"
      by (auto simp: store_elem_def c6 split: if_splits)
    have "slice_elems h'' (AutoGroups ?k) = slice_elems h' (AutoGroups ?k)"
      using assms(2)
      by (cases "AutoGroups ?k")
         (simp_all add: h'' slice_elems_def valid_slice_def ar nth_append)
    then show "deref h'' a = deref h' a"
      by (intro deref_eqI [where g = "AutoGroups ?k"]) (simp_all add: h'' ka ag touched_def)
  qed
  have c12: "\<forall>i v h''. store_elem h' (AutoGroups (keys h' ! a)) i v = Inr h'' \<longrightarrow>
            deref h'' ?c = deref h' ?c"
  proof (intro allI impI)
    fix i v h''
    assume "store_elem h' (AutoGroups (keys h' ! a)) i v = Inr h''"
    then obtain b where b: "AutoGroups ?k = Some b"
      and h'': "h'' = h'\<lparr>arrays := (arrays h')[b := (arrays h' ! b)[i := v]]\<rparr>"
      by (auto simp: store_elem_def ag split: if_splits option.splits)
    from b assms(2) have "b < ?L"
      by (simp add: valid_slice_def)
    then have "slice_elems h'' (Some ?L) = slice_elems h' (Some ?L)"
      by (simp add: h'' slice_elems_def ar)
    then show "deref h'' ?c = deref h' ?c"
      by (intro deref_eqI [where g = "Some ?L"]) (simp_all add: h'' kc)
  qed
  from run c1 c2 c3 c4 ar c6 c7 c8 c9 dc c10 c11 c12 show ?thesis
    by blast
qed

theorem Copy_allocates_and_touches_receiver_witness:
  "0 < length (keys example_heap)
   \<and> valid_slice example_heap (AutoGroups (keys example_heap ! 0))
   \<and> IsZero (UpdatedAt (keys example_heap ! 0))
   \<and> CreatedAt (keys example_heap ! 0) = 10
   \<and> (\<exists>h' c. Copy_ptr example_heap (Some 0) = Inr (h', Some c)
        \<and> c = 1
        \<and> UpdatedAt (keys h' ! 0) = 10
        \<and> AutoGroups (keys h' ! 0) = Some 0
        \<and> AutoGroups (keys h' ! c) = Some 1
        \<and> arrays h' = [[''g1'', ''g2''], [''g1'', ''g2'']]
        \<and> deref h' c = deref h' 0
        \<and> (\<exists>h''. store_elem h' (AutoGroups (keys h' ! c)) 0 ''zz'' = Inr h''
              \<and> arrays h'' = [[''g1'', ''g2''], [''zz'', ''g2'']]
              \<and> deref h'' 0 = deref h' 0))"
proof -
  have a: "0 < length (keys example_heap)"
    and s: "valid_slice example_heap (AutoGroups (keys example_heap ! 0))"
    and z: "IsZero (UpdatedAt (keys example_heap ! 0))"
    and t: "CreatedAt (keys example_heap ! 0) = 10"
    and l: "length (keys example_heap) = 1" "length (arrays example_heap) = 1"
    and g: "AutoGroups (keys example_heap ! 0) = Some 0"
    and e: "arrays example_heap = [[''g1'', ''g2'']]"
      "slice_elems example_heap (AutoGroups (keys example_heap ! 0)) = [''g1'', ''g2'']"
    by (simp_all add: example_heap_def valid_slice_def slice_elems_def IsZero_def zero_time_def)
  from Copy_allocates_and_touches_receiver [OF a s] obtain h' c
    where r: "Copy_ptr example_heap (Some 0) = Inr (h', Some c)"
      and c: "c = length (keys example_heap)"
      and u: "IsZero (UpdatedAt (keys example_heap ! 0)) \<longrightarrow>
          keys h' ! 0 = (keys example_heap ! 0)\<lparr>UpdatedAt := CreatedAt (keys example_heap ! 0)\<rparr>"
      and ar: "arrays h' = arrays example_heap
          @ [slice_elems example_heap (AutoGroups (keys example_heap ! 0))]"
      and n: "AutoGroups (keys h' ! c) = Some (length (arrays example_heap))"
      and d: "deref h' c = deref h' 0"
      and w: "\<forall>i v h''. store_elem h' (AutoGroups (keys h' ! c)) i v = Inr h'' \<longrightarrow>
            deref h'' 0 = deref h' 0"
    by blast
  from u z have k0: "keys h' ! 0
      = (keys example_heap ! 0)\<lparr>UpdatedAt := CreatedAt (keys example_heap ! 0)\<rparr>"
    by simp
  have f: "UpdatedAt (keys h' ! 0) = 10" "AutoGroups (keys h' ! 0) = Some 0"
    by (simp_all add: k0 t g)
  have ar': "arrays h' = [[''g1'', ''g2''], [''g1'', ''g2'']]"
    by (simp add: ar e)
  define h'' where "h'' = h'\<lparr>arrays := (arrays h')[1 := (arrays h' ! 1)[0 := ''zz'']]\<rparr>"
  have st: "store_elem h' (AutoGroups (keys h' ! c)) 0 ''zz'' = Inr h''"
    by (simp add: store_elem_def n l len_slice_def slice_elems_def ar' h''_def)
  have ar'': "arrays h'' = [[''g1'', ''g2''], [''zz'', ''g2'']]"
    by (simp add: h''_def ar')
  from w st have same: "deref h'' 0 = deref h' 0"
    by blast
  from a s z t r c l f n ar' d st ar'' same show ?thesis
    by auto
qed

subsection \<open>The store and the event log\<close>

lemma validate_SetupKeys_update:
  "validateSetupKeyAutoGroups (account\<lparr>SetupKeys := ks\<rparr>) ags
     = validateSetupKeyAutoGroups account ags"
  by (induction ags) (simp_all split: option.split)

lemma validate_prefix_ok:
  "list_all (group_ok account) pre \<Longrightarrow>
     validateSetupKeyAutoGroups account (pre @ rest) = validateSetupKeyAutoGroups account rest"
  by (induction pre) (auto simp: group_ok_def split: option.splits)

lemma validate_None_iff:
  "validateSetupKeyAutoGroups account ags = None \<longleftrightarrow> list_all (group_ok account) ags"
  by (induction ags) (auto simp: group_ok_def split: option.splits)

text \<open>The search finds a key of the collection with the id asked for, if there is one.\<close>

lemma find_old_key_Some:
  "find_old_key keyId ks = Some (ks1, oldKey) \<Longrightarrow>
     \<exists>d key. (d, key) \<in> set ks \<and> Id' key = keyId \<and> oldKey = snd (Copy key)"
proof (induction ks arbitrary: ks1)
  case Nil
  then show ?case by simp
next
  case (Cons p ks)
  obtain d key where p: "p = (d, key)" by (cases p)
  show ?case
  proof (cases "Id' key = keyId")
    case True
    with Cons.prems p have "oldKey = snd (Copy key)"
      by (simp add: split_beta)
    with True p show ?thesis
      by (intro exI [of _ d] exI [of _ key]) simp
  next
    case False
    with Cons.prems p obtain rest1 where "find_old_key keyId ks = Some (rest1, oldKey)"
      by (auto split: option.splits)
    from Cons.IH [OF this] p show ?thesis by auto
  qed
qed

lemma find_old_key_None:
  "find_old_key keyId ks = None \<longleftrightarrow> (\<forall>p\<in>set ks. Id' (snd p) \<noteq> keyId)"
proof (induction ks)
  case Nil
  show ?case by simp
next
  case (Cons p ks)
  obtain d key where p: "p = (d, key)" by (cases p)
  show ?case
  proof (cases "Id' key = keyId")
    case True
    with p show ?thesis by (simp add: split_beta)
  next
    case False
    with p have "find_old_key keyId (p # ks) = None \<longleftrightarrow> find_old_key keyId ks = None"
      by (simp split: option.split)
    with Cons.IH False p show ?thesis by simp
  qed
qed

lemma find_old_key_exists:
  "(d, key) \<in> set ks \<Longrightarrow> Id' key = keyId \<Longrightarrow>
     \<exists>ks1 oldKey. find_old_key keyId ks = Some (ks1, oldKey)"
  using find_old_key_None [of keyId ks] by (cases "find_old_key keyId ks") auto

lemma set_AList_update: "set (AList.update k v al) \<subseteq> insert (k, v) (set al)"
  by (induction al) auto

lemma GetAccount_Inr:
  "GetAccount w accountID = Inr account \<Longrightarrow>
     Faults w OpGetAccount = None \<and> account_Id account = accountID
       \<and> account \<in> set (Accounts w)"
  by (auto simp: GetAccount_def find_Some_iff split: option.splits)

text \<open>What was saved is what the store returns next.\<close>

lemma GetAccount_after_save:
  assumes "Faults w OpGetAccount = None" and "SaveAccount w account = Inr w1"
  shows "GetAccount w1 (account_Id account) = Inr account"
  using assms by (auto simp: GetAccount_def SaveAccount_def split: option.splits)

lemma GetAccount_frame:
  "Accounts w' = Accounts w \<Longrightarrow> Faults w' = Faults w \<Longrightarrow> GetAccount w' a = GetAccount w a"
  by (simp add: GetAccount_def cong: option.case_cong)

text \<open>Events and lines of the log leave the store as it is.\<close>

lemma StoreEvent_frame:
  "Accounts (StoreEvent w i t a k m) = Accounts w"
  "Faults (StoreEvent w i t a k m) = Faults w"
  "Users (StoreEvent w i t a k m) = Users w"
  by (simp_all add: StoreEvent_def)

lemma group_event_frame:
  "Accounts (group_event account u t a k n w g) = Accounts w"
  "Faults (group_event account u t a k n w g) = Faults w"
  "Users (group_event account u t a k n w g) = Users w"
  by (simp_all add: group_event_def StoreEvent_def log_Errorf_def split: option.split)

lemma foldl_group_event_frame:
  "Accounts (foldl (group_event account u t a k n) w gs) = Accounts w"
  "Faults (foldl (group_event account u t a k n) w gs) = Faults w"
  "Users (foldl (group_event account u t a k n) w gs) = Users w"
  by (induction gs arbitrary: w) (simp_all add: group_event_frame)

subsection \<open>Creating a key\<close>

text \<open>\<^verbatim>\<open>CreateSetupKey\<close> succeeds when the account loads, the groups pass and the store saves.\<close>

lemma CreateSetupKey_succeeds:
  assumes "GetAccount w accountID = Inr account"
    and "validateSetupKeyAutoGroups account autoGroups = None"
    and "Faults w OpSaveAccount = None"
  shows "snd (CreateSetupKey env w accountID keyName keyType expiresIn autoGroups usageLimit
                userID ephemeral)
         = Inr ((fst (projr (GenerateSetupKey env keyName keyType expiresIn autoGroups usageLimit
                               ephemeral)))\<lparr>Key := plain_key env\<rparr>)"
  using assms
  by (simp add: CreateSetupKey_def GenerateSetupKey_eq SaveAccount_def Let_def)

text \<open>
  C2. After \<^verbatim>\<open>CreateSetupKey\<close> has returned a key, the key the caller holds carries the
  plaintext as its \<^verbatim>\<open>Key\<close>, and the account the store returns holds, under the digest of
  that plaintext, the same record with the digest as its \<^verbatim>\<open>Key\<close>. The plaintext is not the
  digest, and the record with the plaintext is not written: every entry of the stored
  collection is the new record with the digest or an entry the collection had before.
\<close>

theorem create_persists_digest_only:
  assumes "CreateSetupKey env w accountID keyName keyType expiresIn autoGroups usageLimit userID
             ephemeral = (w', Inr k)"
  shows "\<exists>account account' digest.
          digest = EncodeToString (Sum256 (bytes_of (Key k)))
        \<and> Key k = plain_key env
        \<and> digest \<noteq> Key k
        \<and> GetAccount w accountID = Inr account
        \<and> GetAccount w' accountID = Inr account'
        \<and> map_of (SetupKeys account') digest = Some (k\<lparr>Key := digest\<rparr>)
        \<and> set (SetupKeys account')
             \<subseteq> insert (digest, k\<lparr>Key := digest\<rparr>) (set (SetupKeys account))"
proof -
  from assms obtain account0 where a: "GetAccount w accountID = Inr account0"
    by (cases "GetAccount w accountID") (simp_all add: CreateSetupKey_def)
  from assms a have v: "validateSetupKeyAutoGroups account0 autoGroups = None"
    by (cases "validateSetupKeyAutoGroups account0 autoGroups")
       (simp_all add: CreateSetupKey_def)
  define digest where "digest = EncodeToString (Sum256 (bytes_of (plain_key env)))"
  define setupKey where "setupKey =
    fst (projr (GenerateSetupKey env keyName keyType expiresIn autoGroups usageLimit ephemeral))"
  have gen: "GenerateSetupKey env keyName keyType expiresIn autoGroups usageLimit ephemeral
      = Inr (setupKey, plain_key env)"
    and kd: "Key setupKey = digest"
    by (simp_all add: setupKey_def digest_def GenerateSetupKey_eq)
  define account where "account =
    account0\<lparr>SetupKeys := AList.update digest setupKey (SetupKeys account0)\<rparr>"
  from assms a v gen kd obtain w1 where s: "SaveAccount w account = Inr w1"
    by (cases "SaveAccount w account") (simp_all add: CreateSetupKey_def Let_def account_def)
  from assms a v gen kd s have k: "k = setupKey\<lparr>Key := plain_key env\<rparr>"
    and w': "Accounts w' = Accounts w1" "Faults w' = Faults w1"
    by (auto simp: CreateSetupKey_def Let_def account_def StoreEvent_frame
          foldl_group_event_frame)
  have stored: "k\<lparr>Key := digest\<rparr> = setupKey"
    using kd by (simp add: k)
  have pk: "Key k = plain_key env"
    by (simp add: k)
  have id: "account_Id account = accountID" and nf: "Faults w OpGetAccount = None"
    using GetAccount_Inr [OF a] by (simp_all add: account_def)
  have "GetAccount w1 (account_Id account) = Inr account"
    using nf s by (rule GetAccount_after_save)
  then have g: "GetAccount w' accountID = Inr account"
    using w' id by (simp add: GetAccount_frame [of w' w1])
  have m: "map_of (SetupKeys account) digest = Some (k\<lparr>Key := digest\<rparr>)"
    by (simp add: account_def update_conv' stored)
  have sub: "set (SetupKeys account)
      \<subseteq> insert (digest, k\<lparr>Key := digest\<rparr>) (set (SetupKeys account0))"
    by (simp add: account_def stored set_AList_update)
  have ne: "digest \<noteq> Key k"
    by (simp add: pk digest_def plain_key_not_digest)
  from pk ne a g m sub show ?thesis
    unfolding digest_def pk [symmetric] by blast
qed

lemma example_account_loads: "GetAccount example_world ''acc'' = Inr example_account"
  by (simp add: GetAccount_def example_world_def example_account_def)

lemma example_create:
  "snd (CreateSetupKey example_env example_world ''acc'' ''server'' SetupKeyReusable 50 [''g1'']
          5 ''admin'' False) = Inr created_key"
proof -
  have v: "validateSetupKeyAutoGroups example_account [''g1''] = None"
    by (simp add: example_account_def example_groups_def)
  have f: "Faults example_world OpSaveAccount = None"
    by (simp add: example_world_def)
  have r: "(fst (projr (GenerateSetupKey example_env ''server'' SetupKeyReusable 50 [''g1''] 5
                          False)))\<lparr>Key := plain_key example_env\<rparr> = created_key"
    by (simp add: GenerateSetupKey_eq created_key_def example_env_def zero_time_def
          SetupKeyReusable_def SetupKeyOneOff_def)
  show ?thesis
    unfolding CreateSetupKey_succeeds [OF example_account_loads v f] r ..
qed

theorem create_persists_digest_only_witness:
  "CreateSetupKey example_env example_world ''acc'' ''server'' SetupKeyReusable 50 [''g1'']
       5 ''admin'' False
     = (fst (CreateSetupKey example_env example_world ''acc'' ''server'' SetupKeyReusable 50
               [''g1''] 5 ''admin'' False),
        Inr created_key)
   \<and> (\<exists>account account' digest.
          digest = EncodeToString (Sum256 (bytes_of (Key created_key)))
        \<and> Key created_key = plain_key example_env
        \<and> digest \<noteq> Key created_key
        \<and> GetAccount example_world ''acc'' = Inr account
        \<and> GetAccount
             (fst (CreateSetupKey example_env example_world ''acc'' ''server'' SetupKeyReusable
                     50 [''g1''] 5 ''admin'' False)) ''acc'' = Inr account'
        \<and> map_of (SetupKeys account') digest = Some (created_key\<lparr>Key := digest\<rparr>)
        \<and> set (SetupKeys account')
             \<subseteq> insert (digest, created_key\<lparr>Key := digest\<rparr>) (set (SetupKeys account)))"
proof -
  have run: "CreateSetupKey example_env example_world ''acc'' ''server'' SetupKeyReusable 50
       [''g1''] 5 ''admin'' False
     = (fst (CreateSetupKey example_env example_world ''acc'' ''server'' SetupKeyReusable 50
               [''g1''] 5 ''admin'' False),
        Inr created_key)"
    by (simp add: prod_eq_iff example_create)
  from run create_persists_digest_only [OF run] show ?thesis by (rule conjI)
qed

subsection \<open>Saving a key\<close>

text \<open>
  C7. For every successful \<^verbatim>\<open>SaveSetupKey\<close> the key returned, which is also the key the store
  then holds under the digest, is the existing key (a key of the account with the id of
  the desired state) with \<^verbatim>\<open>Name\<close>, \<^verbatim>\<open>AutoGroups\<close> and \<^verbatim>\<open>Revoked\<close> taken from the desired state
  and \<^verbatim>\<open>UpdatedAt\<close> set to the current time. Every other field (\<^verbatim>\<open>Id\<close>, \<^verbatim>\<open>AccountID\<close>, \<^verbatim>\<open>Key\<close>,
  \<^verbatim>\<open>KeySecret\<close>, \<^verbatim>\<open>Type\<close>, \<^verbatim>\<open>CreatedAt\<close>, \<^verbatim>\<open>ExpiresAt\<close>, \<^verbatim>\<open>UsedTimes\<close>, \<^verbatim>\<open>LastUsed\<close>,
  \<^verbatim>\<open>UsageLimit\<close>, \<^verbatim>\<open>Ephemeral\<close>) is that of the existing key.
\<close>

theorem save_overwrites_name_groups_revoked:
  assumes "SaveSetupKey now w accountID keyToSave0 userID = (w', Inr newKey)"
  shows "\<exists>keyToSave account d existing account'.
           keyToSave0 = Some keyToSave
         \<and> GetAccount w accountID = Inr account
         \<and> (d, existing) \<in> set (SetupKeys account)
         \<and> Id' existing = Id' keyToSave
         \<and> newKey = existing\<lparr>Name := Name keyToSave, AutoGroups := AutoGroups keyToSave,
                               Revoked := Revoked keyToSave, UpdatedAt := now\<rparr>
         \<and> Id' newKey = Id' existing \<and> AccountID newKey = AccountID existing
         \<and> Key newKey = Key existing \<and> KeySecret newKey = KeySecret existing
         \<and> Type newKey = Type existing \<and> CreatedAt newKey = CreatedAt existing
         \<and> ExpiresAt newKey = ExpiresAt existing \<and> UsedTimes newKey = UsedTimes existing
         \<and> LastUsed newKey = LastUsed existing \<and> UsageLimit newKey = UsageLimit existing
         \<and> Ephemeral newKey = Ephemeral existing
         \<and> GetAccount w' accountID = Inr account'
         \<and> map_of (SetupKeys account') (Key existing) = Some newKey"
proof -
  from assms obtain keyToSave where k: "keyToSave0 = Some keyToSave"
    by (cases keyToSave0) (simp_all add: SaveSetupKey_def)
  from assms k obtain account0 where a: "GetAccount w accountID = Inr account0"
    by (cases "GetAccount w accountID") (simp_all add: SaveSetupKey_def)
  from assms k a obtain keys1 oldKey0
    where f: "find_old_key (Id' keyToSave) (SetupKeys account0) = Some (keys1, oldKey0)"
    by (cases "find_old_key (Id' keyToSave) (SetupKeys account0)")
       (auto simp: SaveSetupKey_def)
  from assms k a f have v: "validateSetupKeyAutoGroups account0 (AutoGroups keyToSave) = None"
    by (cases "validateSetupKeyAutoGroups account0 (AutoGroups keyToSave)")
       (simp_all add: SaveSetupKey_def Let_def validate_SetupKeys_update)
  define newKey' where "newKey' =
    (snd (Copy oldKey0))\<lparr>Name := Name keyToSave, AutoGroups := AutoGroups keyToSave,
                         Revoked := Revoked keyToSave, UpdatedAt := now\<rparr>"
  define account where "account =
    account0\<lparr>SetupKeys := AList.update (Key newKey') newKey' keys1\<rparr>"
  from assms k a f v obtain w1 where s: "SaveAccount w account = Inr w1"
    by (cases "SaveAccount w account")
       (simp_all add: SaveSetupKey_def Let_def split_beta newKey'_def account_def
          validate_SetupKeys_update)
  from assms k a f v s have nk: "newKey = newKey'"
    and w': "Accounts w' = Accounts w1" "Faults w' = Faults w1"
    by (auto simp: SaveSetupKey_def Let_def split_beta newKey'_def account_def
          validate_SetupKeys_update StoreEvent_frame foldl_group_event_frame)
  from find_old_key_Some [OF f] obtain d existing
    where e: "(d, existing) \<in> set (SetupKeys account0)" "Id' existing = Id' keyToSave"
      "oldKey0 = snd (Copy existing)"
    by blast
  have upd: "newKey' = existing\<lparr>Name := Name keyToSave, AutoGroups := AutoGroups keyToSave,
                               Revoked := Revoked keyToSave, UpdatedAt := now\<rparr>"
    unfolding newKey'_def e(3) by (cases existing) (simp add: Copy_eq touched_def)
  have id: "account_Id account = accountID" and nf: "Faults w OpGetAccount = None"
    using GetAccount_Inr [OF a] by (simp_all add: account_def)
  have "GetAccount w1 (account_Id account) = Inr account"
    using nf s by (rule GetAccount_after_save)
  then have g: "GetAccount w' accountID = Inr account"
    using w' id by (simp add: GetAccount_frame [of w' w1])
  have "Key newKey' = Key existing"
    by (simp add: upd)
  then have m: "map_of (SetupKeys account) (Key existing) = Some newKey'"
    by (simp add: account_def update_conv')
  have fields: "Id' newKey' = Id' existing \<and> AccountID newKey' = AccountID existing
         \<and> Key newKey' = Key existing \<and> KeySecret newKey' = KeySecret existing
         \<and> Type newKey' = Type existing \<and> CreatedAt newKey' = CreatedAt existing
         \<and> ExpiresAt newKey' = ExpiresAt existing \<and> UsedTimes newKey' = UsedTimes existing
         \<and> LastUsed newKey' = LastUsed existing \<and> UsageLimit newKey' = UsageLimit existing
         \<and> Ephemeral newKey' = Ephemeral existing"
    by (simp add: upd)
  from k a e(1,2) upd fields g m show ?thesis
    unfolding nk by blast
qed

lemma example_save:
  "snd (SaveSetupKey 200 example_world ''acc'' (Some desired_key) ''admin'') = Inr saved_key"
  by (simp add: SaveSetupKey_def GetAccount_def SaveAccount_def example_world_def
        example_account_def example_groups_def stored_key_def desired_key_def saved_key_def
        Copy_def copy_elems_def IsZero_def zero_time_def Let_def)

theorem save_overwrites_name_groups_revoked_witness:
  "SaveSetupKey 200 example_world ''acc'' (Some desired_key) ''admin''
     = (fst (SaveSetupKey 200 example_world ''acc'' (Some desired_key) ''admin''), Inr saved_key)
   \<and> Name saved_key = Name desired_key \<and> AutoGroups saved_key = AutoGroups desired_key
   \<and> Revoked saved_key = Revoked desired_key \<and> UpdatedAt saved_key = 200
   \<and> Key saved_key = Key stored_key \<and> Type saved_key = Type stored_key
   \<and> UsageLimit saved_key = UsageLimit stored_key
   \<and> (\<exists>account d existing account'.
           GetAccount example_world ''acc'' = Inr account
         \<and> (d, existing) \<in> set (SetupKeys account)
         \<and> Id' existing = Id' desired_key
         \<and> saved_key = existing\<lparr>Name := Name desired_key, AutoGroups := AutoGroups desired_key,
                                 Revoked := Revoked desired_key, UpdatedAt := 200\<rparr>
         \<and> GetAccount (fst (SaveSetupKey 200 example_world ''acc'' (Some desired_key) ''admin''))
               ''acc'' = Inr account'
         \<and> map_of (SetupKeys account') (Key existing) = Some saved_key)"
proof -
  have run: "SaveSetupKey 200 example_world ''acc'' (Some desired_key) ''admin''
     = (fst (SaveSetupKey 200 example_world ''acc'' (Some desired_key) ''admin''), Inr saved_key)"
    by (simp add: prod_eq_iff example_save)
  have f: "Name saved_key = Name desired_key" "AutoGroups saved_key = AutoGroups desired_key"
    "Revoked saved_key = Revoked desired_key" "UpdatedAt saved_key = 200"
    "Key saved_key = Key stored_key" "Type saved_key = Type stored_key"
    "UsageLimit saved_key = UsageLimit stored_key"
    by (simp_all add: saved_key_def desired_key_def stored_key_def)
  from save_overwrites_name_groups_revoked [OF run]
  have "\<exists>account d existing account'.
           GetAccount example_world ''acc'' = Inr account
         \<and> (d, existing) \<in> set (SetupKeys account)
         \<and> Id' existing = Id' desired_key
         \<and> saved_key = existing\<lparr>Name := Name desired_key, AutoGroups := AutoGroups desired_key,
                                 Revoked := Revoked desired_key, UpdatedAt := 200\<rparr>
         \<and> GetAccount (fst (SaveSetupKey 200 example_world ''acc'' (Some desired_key) ''admin''))
               ''acc'' = Inr account'
         \<and> map_of (SetupKeys account') (Key existing) = Some saved_key"
    by auto
  with run f show ?thesis by simp
qed

subsection \<open>Validation of the auto groups\<close>

text \<open>
  C8. The validation goes through the requested ids in order and fails at the first id
  that does not pass: with a NotFound error when the account has no group of that id,
  with an InvalidArgument error when the group is the one called \<^verbatim>\<open>All\<close>; it passes exactly
  when every id passes. When it fails in \<^verbatim>\<open>CreateSetupKey\<close>, or in \<^verbatim>\<open>SaveSetupKey\<close> (which
  validates once it has found the key to update), the call returns that error and leaves
  the state as it was: the store, with the key collection of the account, and the logs.
\<close>

theorem auto_groups_validation_fails_fast:
  "(list_all (group_ok account) pre \<and> Groups account g = None \<longrightarrow>
      validateSetupKeyAutoGroups account (pre @ g # post)
        = Some (Status NotFound (''group '' @ g @ '' doesn't exist'')))
   \<and> (list_all (group_ok account) pre \<and> Groups account g = Some grp
        \<and> group_Name grp = ''All'' \<longrightarrow>
      validateSetupKeyAutoGroups account (pre @ g # post)
        = Some (Status InvalidArgument ''can't add All group to the setup key''))
   \<and> (validateSetupKeyAutoGroups account ags = None \<longleftrightarrow> list_all (group_ok account) ags)
   \<and> (GetAccount w accountID = Inr account
        \<and> validateSetupKeyAutoGroups account autoGroups = Some err \<longrightarrow>
      CreateSetupKey env w accountID keyName keyType expiresIn autoGroups usageLimit userID
        ephemeral = (w, Inl err))
   \<and> (GetAccount w accountID = Inr account
        \<and> (d, key) \<in> set (SetupKeys account) \<and> Id' key = Id' keyToSave
        \<and> validateSetupKeyAutoGroups account (AutoGroups keyToSave) = Some err \<longrightarrow>
      SaveSetupKey now w accountID (Some keyToSave) userID = (w, Inl err))"
proof (intro conjI impI)
  assume "list_all (group_ok account) pre \<and> Groups account g = None"
  then show "validateSetupKeyAutoGroups account (pre @ g # post)
        = Some (Status NotFound (''group '' @ g @ '' doesn't exist''))"
    by (simp add: validate_prefix_ok)
next
  assume "list_all (group_ok account) pre \<and> Groups account g = Some grp
        \<and> group_Name grp = ''All''"
  then show "validateSetupKeyAutoGroups account (pre @ g # post)
        = Some (Status InvalidArgument ''can't add All group to the setup key'')"
    by (simp add: validate_prefix_ok)
next
  show "validateSetupKeyAutoGroups account ags = None \<longleftrightarrow> list_all (group_ok account) ags"
    by (rule validate_None_iff)
next
  assume "GetAccount w accountID = Inr account
        \<and> validateSetupKeyAutoGroups account autoGroups = Some err"
  then show "CreateSetupKey env w accountID keyName keyType expiresIn autoGroups usageLimit
        userID ephemeral = (w, Inl err)"
    by (simp add: CreateSetupKey_def)
next
  assume h: "GetAccount w accountID = Inr account
        \<and> (d, key) \<in> set (SetupKeys account) \<and> Id' key = Id' keyToSave
        \<and> validateSetupKeyAutoGroups account (AutoGroups keyToSave) = Some err"
  then obtain ks1 oldKey
    where "find_old_key (Id' keyToSave) (SetupKeys account) = Some (ks1, oldKey)"
    using find_old_key_exists by blast
  with h show "SaveSetupKey now w accountID (Some keyToSave) userID = (w, Inl err)"
    by (simp add: SaveSetupKey_def validate_SetupKeys_update)
qed

theorem auto_groups_validation_fails_fast_witness:
  "list_all (group_ok example_account) [''g1'']
   \<and> Groups example_account ''g0'' = Some \<lparr>group_ID = ''g0'', group_Name = ''All''\<rparr>
   \<and> Groups example_account ''gx'' = None
   \<and> validateSetupKeyAutoGroups example_account [''g1'', ''g0'', ''gx'']
        = Some (Status InvalidArgument ''can't add All group to the setup key'')
   \<and> validateSetupKeyAutoGroups example_account [''g1'', ''gx'', ''g0'']
        = Some (Status NotFound ''group gx doesn't exist'')
   \<and> GetAccount example_world ''acc'' = Inr example_account
   \<and> (''digest'', stored_key) \<in> set (SetupKeys example_account)
   \<and> Id' stored_key = Id' desired_key_with_All
   \<and> AutoGroups desired_key_with_All = [''g1'', ''g0'']
   \<and> SaveSetupKey 200 example_world ''acc'' (Some desired_key_with_All) ''admin''
        = (example_world, Inl (Status InvalidArgument ''can't add All group to the setup key''))
   \<and> CreateSetupKey example_env example_world ''acc'' ''server'' SetupKeyReusable 50
        [''g1'', ''gx'', ''g0''] 5 ''admin'' False
        = (example_world, Inl (Status NotFound ''group gx doesn't exist''))"
proof -
  have ok: "list_all (group_ok example_account) [''g1'']"
    and g0: "Groups example_account ''g0'' = Some \<lparr>group_ID = ''g0'', group_Name = ''All''\<rparr>"
    and gx: "Groups example_account ''gx'' = None"
    and mem: "(''digest'', stored_key) \<in> set (SetupKeys example_account)"
    and same: "Id' stored_key = Id' desired_key_with_All"
    and ags: "AutoGroups desired_key_with_All = [''g1'', ''g0'']"
    by (simp_all add: example_account_def example_groups_def group_ok_def stored_key_def
          desired_key_with_All_def desired_key_def)
  note acc = example_account_loads
  have name: "group_Name \<lparr>group_ID = ''g0'', group_Name = ''All''\<rparr> = ''All''"
    by simp
  note all = auto_groups_validation_fails_fast
    [where account = example_account and pre = "[''g1'']" and g = "''g0''"
       and grp = "\<lparr>group_ID = ''g0'', group_Name = ''All''\<rparr>"
       and w = example_world and accountID = "''acc''"
       and err = "Status InvalidArgument ''can't add All group to the setup key''"
       and d = "''digest''" and key = stored_key and keyToSave = desired_key_with_All
       and now = 200 and userID = "''admin''"]
  note missing = auto_groups_validation_fails_fast
    [where account = example_account and pre = "[''g1'']" and g = "''gx''"
       and post = "[''g0'']" and w = example_world and accountID = "''acc''"
       and autoGroups = "[''g1'', ''gx'', ''g0'']"
       and err = "Status NotFound ''group gx doesn't exist''"
       and env = example_env and keyName = "''server''" and keyType = SetupKeyReusable
       and expiresIn = 50 and usageLimit = 5 and userID = "''admin''" and ephemeral = False]
  from all [where post = "[''gx'']"] ok g0 name
  have v1: "validateSetupKeyAutoGroups example_account [''g1'', ''g0'', ''gx'']
        = Some (Status InvalidArgument ''can't add All group to the setup key'')"
    by simp
  from all [where post = "[]"] ok g0 name
  have v2: "validateSetupKeyAutoGroups example_account [''g1'', ''g0'']
        = Some (Status InvalidArgument ''can't add All group to the setup key'')"
    by simp
  from missing ok gx
  have v3: "validateSetupKeyAutoGroups example_account [''g1'', ''gx'', ''g0'']
        = Some (Status NotFound ''group gx doesn't exist'')"
    by simp
  from all [where post = "[]"] acc mem same v2 ags
  have s: "SaveSetupKey 200 example_world ''acc'' (Some desired_key_with_All) ''admin''
        = (example_world, Inl (Status InvalidArgument ''can't add All group to the setup key''))"
    by simp
  from missing acc v3
  have c: "CreateSetupKey example_env example_world ''acc'' ''server'' SetupKeyReusable 50
        [''g1'', ''gx'', ''g0''] 5 ''admin'' False
        = (example_world, Inl (Status NotFound ''group gx doesn't exist''))"
    by simp
  from ok g0 gx v1 v3 acc mem same ags s c show ?thesis
    by simp
qed

subsection \<open>Queries and deletion\<close>

text \<open>
  C9. When the acting user is found and is not an admin or service user, or belongs to
  another account than the one named in the call, each of \<^verbatim>\<open>ListSetupKeys\<close>, \<^verbatim>\<open>GetSetupKey\<close>
  and \<^verbatim>\<open>DeleteSetupKey\<close> returns the error of \<^verbatim>\<open>status.NewUnauthorizedToViewSetupKeysError\<close>:
  no key is returned, and the state (store, events, logs) is the one before the call.
\<close>

theorem unauthorized_caller_is_rejected:
  assumes "GetUserByUserID w userID = Inr user"
    and "\<not> IsAdminOrServiceUser user \<or> user_AccountID user \<noteq> accountID"
  shows "ListSetupKeys w accountID userID = (w, Inl NewUnauthorizedToViewSetupKeysError)
       \<and> GetSetupKey w accountID userID keyID = (w, Inl NewUnauthorizedToViewSetupKeysError)
       \<and> DeleteSetupKey w accountID userID keyID = (w, Some NewUnauthorizedToViewSetupKeysError)
       \<and> (\<exists>msg. NewUnauthorizedToViewSetupKeysError = Status Unauthorized msg)"
  using assms
  by (auto simp: ListSetupKeys_def GetSetupKey_def DeleteSetupKey_def
        NewUnauthorizedToViewSetupKeysError_def)

theorem unauthorized_caller_is_rejected_witness:
  "GetUserByUserID example_world ''guest'' = Inr guest_user
   \<and> \<not> IsAdminOrServiceUser guest_user
   \<and> ListSetupKeys example_world ''acc'' ''guest''
        = (example_world, Inl NewUnauthorizedToViewSetupKeysError)
   \<and> GetSetupKey example_world ''acc'' ''guest'' ''7''
        = (example_world, Inl NewUnauthorizedToViewSetupKeysError)
   \<and> DeleteSetupKey example_world ''acc'' ''guest'' ''7''
        = (example_world, Some NewUnauthorizedToViewSetupKeysError)
   \<and> GetUserByUserID example_world ''other'' = Inr foreign_admin
   \<and> IsAdminOrServiceUser foreign_admin
   \<and> user_AccountID foreign_admin \<noteq> ''acc''
   \<and> ListSetupKeys example_world ''acc'' ''other''
        = (example_world, Inl NewUnauthorizedToViewSetupKeysError)
   \<and> GetSetupKey example_world ''acc'' ''other'' ''7''
        = (example_world, Inl NewUnauthorizedToViewSetupKeysError)
   \<and> DeleteSetupKey example_world ''acc'' ''other'' ''7''
        = (example_world, Some NewUnauthorizedToViewSetupKeysError)"
proof -
  have g: "GetUserByUserID example_world ''guest'' = Inr guest_user"
    and o: "GetUserByUserID example_world ''other'' = Inr foreign_admin"
    by (simp_all add: GetUserByUserID_def example_world_def admin_user_def guest_user_def
          foreign_admin_def)
  have ng: "\<not> IsAdminOrServiceUser guest_user"
    and ao: "IsAdminOrServiceUser foreign_admin"
    and no: "user_AccountID foreign_admin \<noteq> ''acc''"
    by (simp_all add: IsAdminOrServiceUser_def guest_user_def foreign_admin_def)
  from ng have hg: "\<not> IsAdminOrServiceUser guest_user \<or> user_AccountID guest_user \<noteq> ''acc''"
    by simp
  from no have ho: "\<not> IsAdminOrServiceUser foreign_admin \<or> user_AccountID foreign_admin \<noteq> ''acc''"
    by simp
  from unauthorized_caller_is_rejected [OF g hg, of "''7''"]
    unauthorized_caller_is_rejected [OF o ho, of "''7''"] g o ng ao no
  show ?thesis by simp
qed

end
